theory Spec2Isabelle
  imports Main "HOL-Library.Word" "HOL-Library.Signed_Division" "HOL-Library.Stream"
    "HOL-Library.Monad_Syntax"
begin

unbundle bit_operations_syntax

section \<open>Machine integers\<close>

type_synonym u8 = "8 word"
type_synonym u32 = "32 word"
type_synonym i16 = "16 word"
type_synonym i32 = "32 word"

text \<open>
  Go's \<^verbatim>\<open>%\<close> on \<^verbatim>\<open>int32\<close> truncates towards zero: the remainder has the sign of
  the dividend. The operands are read as two's complement (\<open>sint\<close>).
\<close>

definition rem_i32 :: "i32 \<Rightarrow> i32 \<Rightarrow> i32" where
  "rem_i32 a b = word_of_int (sint a smod sint b)"

section \<open>Errors and panics\<close>

text \<open>
  The error values the code returns (Go builds them with \<^verbatim>\<open>errors.New\<close> and
  \<^verbatim>\<open>fmt.Errorf\<close>; the names are the spec's), and the two run-time panics the modelled
  functions can raise.
\<close>

datatype error =
    MapCreationFailed
  | EmptyProgram
  | InvalidZeroOffset
  | JumpOutOfBounds
  | EmptyJumpContext
  | UnknownRegister
  | NilPointerDereference
  | SliceBoundsOutOfRange

section \<open>Opcode tables\<close>

text \<open>
  Modelled from the spec: the opcode and class constants (\<^verbatim>\<open>AluMov\<close>, \<^verbatim>\<open>JmpExit\<close>,
  \<^verbatim>\<open>InsClassAlu\<close>, ...) are declared outside the listed sources. The spec gives the ALU
  ops \<^verbatim>\<open>ADD, SUB, MUL, DIV, OR, AND, LSH, RSH, NEG, MOD, XOR, MOV, ARSH\<close> the values
  0x00..0x0C and the JMP ops \<^verbatim>\<open>JA, JEQ, JGT, JGE, JSET, JNE, JSGT, JSGE, CALL, EXIT, JLT,
  JLE, JSLT, JSLE\<close> the values 0x00..0x0D, both in high-nibble position after a 4-bit
  shift, and the classes \<^verbatim>\<open>ALU=0x04, JMP=0x05, ALU64=0x07\<close>.
\<close>

definition AluAdd :: u8 where "AluAdd = 0x00"
definition AluSub :: u8 where "AluSub = 0x10"
definition AluMul :: u8 where "AluMul = 0x20"
definition AluDiv :: u8 where "AluDiv = 0x30"
definition AluOr :: u8 where "AluOr = 0x40"
definition AluAnd :: u8 where "AluAnd = 0x50"
definition AluLsh :: u8 where "AluLsh = 0x60"
definition AluRsh :: u8 where "AluRsh = 0x70"
definition AluNeg :: u8 where "AluNeg = 0x80"
definition AluMod :: u8 where "AluMod = 0x90"
definition AluXor :: u8 where "AluXor = 0xa0"
definition AluMov :: u8 where "AluMov = 0xb0"
definition AluArsh :: u8 where "AluArsh = 0xc0"

definition JmpJA :: u8 where "JmpJA = 0x00"
definition JmpJEQ :: u8 where "JmpJEQ = 0x10"
definition JmpJGT :: u8 where "JmpJGT = 0x20"
definition JmpJGE :: u8 where "JmpJGE = 0x30"
definition JmpJSET :: u8 where "JmpJSET = 0x40"
definition JmpJNE :: u8 where "JmpJNE = 0x50"
definition JmpJSGT :: u8 where "JmpJSGT = 0x60"
definition JmpJSGE :: u8 where "JmpJSGE = 0x70"
definition JmpCALL :: u8 where "JmpCALL = 0x80"
definition JmpExit :: u8 where "JmpExit = 0x90"
definition JmpJLT :: u8 where "JmpJLT = 0xa0"
definition JmpJLE :: u8 where "JmpJLE = 0xb0"
definition JmpJSLT :: u8 where "JmpJSLT = 0xc0"
definition JmpJSLE :: u8 where "JmpJSLE = 0xd0"

definition InsClassAlu :: u8 where "InsClassAlu = 0x04"
definition InsClassJmp :: u8 where "InsClassJmp = 0x05"
definition InsClassAlu64 :: u8 where "InsClassAlu64 = 0x07"

text \<open>
  The constant \<^verbatim>\<open>UnusedField\<close> fills the immediate of the authored jumps. Its
  declaration is outside the listed sources and the spec does not give its value; 0 is
  taken here, and no result below reads the immediate of a jump.
\<close>

definition UnusedField :: i32 where "UnusedField = 0"

section \<open>Register model\<close>

text \<open>
  Modelled from the spec: the type \<^verbatim>\<open>Register\<close>, the globals \<^verbatim>\<open>RegR0\<close>..\<^verbatim>\<open>RegR10\<close>,
  \<^verbatim>\<open>GetRegisterFromNumber\<close> and \<^verbatim>\<open>RegisterNumber\<close> are declared outside the listed
  sources. The spec: the set of registers R0..R10 is closed and global;
  \<^verbatim>\<open>register_from_number(n)\<close> returns a handle, or a "no such register" error for n
  outside 0..10; \<^verbatim>\<open>register_number(r)\<close> is its inverse.

  A \<^verbatim>\<open>*Register\<close> of the code is a \<open>register option\<close>: \<open>None\<close> is the nil pointer.
  The registers are global singletons, so comparing two handles with \<^verbatim>\<open>==\<close> compares
  the registers.
\<close>

datatype register =
  RegR0 | RegR1 | RegR2 | RegR3 | RegR4 | RegR5 | RegR6 | RegR7 | RegR8 | RegR9 | RegR10

fun RegisterNumber :: "register \<Rightarrow> u8" where
  "RegisterNumber RegR0 = 0"
| "RegisterNumber RegR1 = 1"
| "RegisterNumber RegR2 = 2"
| "RegisterNumber RegR3 = 3"
| "RegisterNumber RegR4 = 4"
| "RegisterNumber RegR5 = 5"
| "RegisterNumber RegR6 = 6"
| "RegisterNumber RegR7 = 7"
| "RegisterNumber RegR8 = 8"
| "RegisterNumber RegR9 = 9"
| "RegisterNumber RegR10 = 10"

definition GetRegisterFromNumber :: "u8 \<Rightarrow> error + register" where
  "GetRegisterFromNumber regNo =
     (if regNo = 0 then Inr RegR0
      else if regNo = 1 then Inr RegR1
      else if regNo = 2 then Inr RegR2
      else if regNo = 3 then Inr RegR3
      else if regNo = 4 then Inr RegR4
      else if regNo = 5 then Inr RegR5
      else if regNo = 6 then Inr RegR6
      else if regNo = 7 then Inr RegR7
      else if regNo = 8 then Inr RegR8
      else if regNo = 9 then Inr RegR9
      else if regNo = 10 then Inr RegR10
      else Inl UnknownRegister)"

text \<open>
  The callers write \<^verbatim>\<open>reg, _ := GetRegisterFromNumber(n)\<close>: they keep the handle, which
  is nil when the lookup fails, and drop the error.
\<close>

definition handle_of :: "error + register \<Rightarrow> register option" where
  "handle_of r = (case r of Inl _ \<Rightarrow> None | Inr reg \<Rightarrow> Some reg)"

section \<open>Random numbers\<close>

text \<open>
  Modelled from the spec: the package \<^verbatim>\<open>buzzer/pkg/rand\<close> (\<^verbatim>\<open>erand.NumGen\<close>) is outside
  the listed sources. The spec's contract: \<^verbatim>\<open>rand_range(lo, hi)\<close> returns a uniform
  integer in \<open>[lo, hi]\<close> inclusive. A generator is the stream of its future raw draws;
  \<open>RandRange\<close> consumes one draw and maps it into the range, so that quantifying over
  all streams is quantifying over every outcome of the generator. The spec gives no
  contract for \<open>hi < lo\<close>, and no result below uses the value there.
\<close>

type_synonym numgen = "nat stream"

definition RandRange :: "numgen \<Rightarrow> nat \<Rightarrow> nat \<Rightarrow> nat \<times> numgen" where
  "RandRange g lo hi = (lo + shd g mod (hi - lo + 1), stl g)"

section \<open>Instruction nodes\<close>

text \<open>
  The four node shapes of the code, with the fields the listed sources set:
  \<^verbatim>\<open>BaseInstruction{Opcode, InstructionClass}\<close> and the linear successor, and for the
  jumps the authored false-branch size and the two branch successors. A successor of
  type \<^verbatim>\<open>Instruction\<close> is an \<open>instruction option\<close> (\<open>None\<close> is nil). The two
  branch-generator closures of a \<^verbatim>\<open>RegJMPInstruction\<close> are only stored by the functions
  modelled here, never called; a closure is represented by an identifier.
\<close>

type_synonym branch_generator = nat

datatype instruction =
    AluImmInstruction
      (Opcode: u8) (InstructionClass: u8) (DstReg: "register option") (Imm: i32)
      (nextInstruction: "instruction option")
  | AluRegInstruction
      (Opcode: u8) (InstructionClass: u8) (DstReg: "register option")
      (SrcReg: "register option") (nextInstruction: "instruction option")
  | IMMJMPInstruction
      (Opcode: u8) (InstructionClass: u8) (Imm: i32) (DstReg: "register option")
      (FalseBranchSize: i16)
      (FalseBranchNextInstr: "instruction option") (TrueBranchNextInstr: "instruction option")
  | RegJMPInstruction
      (Opcode: u8) (InstructionClass: u8) (DstReg: "register option")
      (SrcReg: "register option") (FalseBranchSize: i16)
      (trueBranchGenerator: "branch_generator option")
      (falseBranchGenerator: "branch_generator option")
      (FalseBranchNextInstr: "instruction option") (TrueBranchNextInstr: "instruction option")

text \<open>
  Modelled from the spec: \<^verbatim>\<open>NewAluImmInstruction\<close> and \<^verbatim>\<open>NewAluRegInstruction\<close> are
  declared outside the listed sources. They build the ALU-Imm node
  \<open>{opcode, class, dst_reg, imm, next}\<close> and the ALU-Reg node
  \<open>{opcode, class, dst_reg, src_reg, next}\<close> of the spec's data model from their
  arguments, with no successor yet.
\<close>

definition NewAluImmInstruction :: "u8 \<Rightarrow> u8 \<Rightarrow> register option \<Rightarrow> i32 \<Rightarrow> instruction" where
  "NewAluImmInstruction op insClass dstReg imm = AluImmInstruction op insClass dstReg imm None"

definition NewAluRegInstruction ::
  "u8 \<Rightarrow> u8 \<Rightarrow> register option \<Rightarrow> register option \<Rightarrow> instruction" where
  "NewAluRegInstruction op insClass dstReg srcReg =
     AluRegInstruction op insClass dstReg srcReg None"

subsection \<open>The authored constructors\<close>

definition Exit :: instruction where
  "Exit = IMMJMPInstruction JmpExit InsClassJmp UnusedField (Some RegR0) 0 None None"

definition JmpGT :: "register option \<Rightarrow> i32 \<Rightarrow> i16 \<Rightarrow> instruction" where
  "JmpGT dstReg imm offset =
     IMMJMPInstruction JmpJGT InsClassJmp UnusedField (Some RegR0) offset None None"

definition JmpLT :: "register option \<Rightarrow> register option \<Rightarrow> i16 \<Rightarrow> instruction" where
  "JmpLT dstReg srcReg offset =
     RegJMPInstruction JmpJGT InsClassJmp (Some RegR0) srcReg offset None None None None"

definition Jmp :: "i16 \<Rightarrow> instruction" where
  "Jmp offset = IMMJMPInstruction JmpJA InsClassJmp UnusedField (Some RegR0) offset None None"

text \<open>
  \<^verbatim>\<open>Mov64\<close> takes its source as an \<^verbatim>\<open>interface{}\<close>: a register, an \<^verbatim>\<open>int\<close>, or anything
  else, for which it returns nil.
\<close>

datatype mov_src = SrcRegister "register option" | SrcInt int | SrcOther

definition Mov64 :: "register option \<Rightarrow> mov_src \<Rightarrow> instruction option" where
  "Mov64 dstReg src =
     (case src of
        SrcRegister srcReg \<Rightarrow> Some (NewAluRegInstruction AluMov InsClassAlu64 dstReg srcReg)
      | SrcInt srcImm \<Rightarrow>
          Some (NewAluImmInstruction AluMov InsClassAlu64 dstReg (word_of_int srcImm))
      | SrcOther \<Rightarrow> None)"

definition Mul64 :: "register option \<Rightarrow> i32 \<Rightarrow> instruction" where
  "Mul64 dstReg imm = NewAluImmInstruction AluMul InsClassAlu64 dstReg imm"

section \<open>The program object\<close>

text \<open>
  The struct \<^verbatim>\<open>Program\<close>. The fields \<^verbatim>\<open>root\<close> and \<^verbatim>\<open>size\<close> are \<open>prog_root\<close> and
  \<open>prog_size\<close> here. The field \<^verbatim>\<open>Gen\<close>
  is not part of the record: the strategy's hooks are functions over programs, and a
  record cannot hold a function over itself, so the strategy is passed beside the
  program. The generator \<^verbatim>\<open>rng\<close> is shared by pointer in the code; here every draw
  returns the advanced generator, which is stored back into the program.
\<close>

record program =
  prog_root :: "instruction option"
  prog_size :: u32
  trackedRegs :: "u8 list"
  rng :: numgen
  logMap :: int
  MapSize :: int
  MinRegister :: u8
  MaxRegister :: u8

text \<open>
  \<^verbatim>\<open>GeneratorInterface\<close>: both hooks receive the program by pointer and may change it,
  so they return it.
\<close>

record generator =
  Generate :: "program \<Rightarrow> instruction option \<times> program"
  GenerateNextInstruction :: "program \<Rightarrow> instruction option \<times> program"

text \<open>
  What the program object takes from outside the listed sources: the C function
  \<^verbatim>\<open>create_bpf_map\<close>, the generator state that seeding from the wall clock yields, and
  the method \<^verbatim>\<open>NumerateInstruction\<close> of the instruction nodes.
\<close>

record externals =
  create_bpf_map :: "int \<Rightarrow> int"
  clock_rng :: numgen
  NumerateInstruction :: "instruction \<Rightarrow> int \<Rightarrow> int"

definition IsRegisterInitialized :: "program \<Rightarrow> u8 \<Rightarrow> bool" where
  "IsRegisterInitialized a regNo = list_ex (\<lambda>reg. regNo = reg) (trackedRegs a)"

definition MarkRegisterInitialized :: "program \<Rightarrow> u8 \<Rightarrow> program" where
  "MarkRegisterInitialized a reg =
     (if \<not> (MinRegister a \<le> reg \<and> reg \<le> MaxRegister a) then a
      else a\<lparr>trackedRegs := trackedRegs a @ [reg]\<rparr>)"

text \<open>
  \<^verbatim>\<open>GetRandomRegister\<close>: the rejection loop may run forever, so not returning is the
  value \<open>None\<close>. The index drawn is at most \<open>len - 1\<close> (lemma \<open>RandRange_le\<close> below),
  so the read of \<^verbatim>\<open>trackedRegs\<close> is in range.
\<close>

partial_function (option) GetRandomRegister_loop :: "program \<Rightarrow> u8 \<Rightarrow> (u8 \<times> program) option" where
  "GetRandomRegister_loop a reg =
     (if \<not> (MinRegister a \<le> reg \<and> reg \<le> MaxRegister a) then
        (case RandRange (rng a) 0 (length (trackedRegs a) - 1) of
           (i, g) \<Rightarrow> GetRandomRegister_loop (a\<lparr>rng := g\<rparr>) (trackedRegs a ! i))
      else Some (reg, a))"

definition GetRandomRegister :: "program \<Rightarrow> (u8 \<times> program) option" where
  "GetRandomRegister a =
     (if length (trackedRegs a) = 0 then Some (0xFF, a)
      else
        (case RandRange (rng a) 0 (length (trackedRegs a) - 1) of
           (i, g) \<Rightarrow> GetRandomRegister_loop (a\<lparr>rng := g\<rparr>) (trackedRegs a ! i)))"

text \<open>
  \<^verbatim>\<open>construct\<close> returns its error; the program, changed in place by the code, is
  returned beside it. \<open>construct_start\<close> is the program after the first two
  assignments of \<^verbatim>\<open>construct\<close>, the one the \<^verbatim>\<open>Generate\<close> hook receives.
\<close>

definition construct_start :: "externals \<Rightarrow> program \<Rightarrow> program" where
  "construct_start ext a = a\<lparr>rng := clock_rng ext, trackedRegs := []\<rparr>"

definition construct :: "externals \<Rightarrow> generator \<Rightarrow> program \<Rightarrow> error option \<times> program" where
  "construct ext gen a =
     (case Generate gen (construct_start ext a) of
        (Some ptr, a') \<Rightarrow>
          (None, a'\<lparr>prog_root := Some ptr,
                     prog_size := word_of_int (NumerateInstruction ext ptr 0)\<rparr>)
      | (None, a') \<Rightarrow> (Some EmptyProgram, a'))"

text \<open>
  \<^verbatim>\<open>New\<close> returns \<^verbatim>\<open>(*Program, error)\<close>. The struct literal leaves \<^verbatim>\<open>root\<close>, \<^verbatim>\<open>size\<close>,
  \<^verbatim>\<open>trackedRegs\<close> and \<^verbatim>\<open>rng\<close> at their zero values; \<^verbatim>\<open>construct\<close> assigns \<^verbatim>\<open>rng\<close> before
  anything reads it, and the literal is written here with the value it will get. The
  result of \<^verbatim>\<open>prog.construct()\<close> is not bound to anything.
\<close>

definition New ::
  "externals \<Rightarrow> generator \<Rightarrow> int \<Rightarrow> u8 \<Rightarrow> u8 \<Rightarrow> program option \<times> error option" where
  "New ext gen mapSize minReg maxReg =
     (let lMap = create_bpf_map ext mapSize in
      if lMap < 0 then (None, Some MapCreationFailed)
      else
        (let prog = \<lparr>prog_root = None, prog_size = 0, trackedRegs = [], rng = clock_rng ext,
                      logMap = lMap, MapSize = mapSize,
                      MinRegister = minReg, MaxRegister = maxReg\<rparr>;
             prog' = snd (construct ext gen prog)
         in (Some prog', None)))"

section \<open>Random instruction factories\<close>

text \<open>
  A factory returns \<open>None\<close> when one of its resampling loops runs forever,
  \<open>Some (Inl e)\<close> when it panics, and \<open>Some (Inr (instr, prog))\<close> when it returns
  \<open>instr\<close>, with the program as the factory left it.

  \<^verbatim>\<open>dstReg.RegisterNumber()\<close> on a nil \<^verbatim>\<open>*Register\<close> reads a field through a nil pointer
  and panics.
\<close>

definition generateImmAluInstruction ::
  "u8 \<Rightarrow> u8 \<Rightarrow> register option \<Rightarrow> program \<Rightarrow> error + instruction \<times> program" where
  "generateImmAluInstruction op insClass dstReg prog =
     (case RandRange (rng prog) 0 0xFFFFFFFF of
        (r, g) \<Rightarrow>
          (let prog1 = prog\<lparr>rng := g\<rparr>;
               val = (word_of_nat r :: i32)
           in
             if op = AluRsh \<or> op = AluLsh \<or> op = AluArsh then
               (let maxShift = (if insClass = InsClassAlu then 32 else 64 :: i32)
                in Inr (NewAluImmInstruction op insClass dstReg (rem_i32 val maxShift), prog1))
             else if op = AluNeg then
               Inr (NewAluImmInstruction op insClass dstReg 0, prog1)
             else if op = AluMov then
               (case dstReg of
                  None \<Rightarrow> Inl NilPointerDereference
                | Some d \<Rightarrow>
                    (let prog2 =
                       (if \<not> IsRegisterInitialized prog1 (RegisterNumber d)
                        then MarkRegisterInitialized prog1 (RegisterNumber d) else prog1)
                     in Inr (NewAluImmInstruction op insClass dstReg val, prog2)))
             else Inr (NewAluImmInstruction op insClass dstReg val, prog1)))"

text \<open>
  \<^verbatim>\<open>generateRegAluInstruction\<close>: the loop that draws a new op while the op is
  \<^verbatim>\<open>AluNeg\<close>, then the function around it. The \<^verbatim>\<open>&&\<close> reads \<^verbatim>\<open>dstReg\<close> only when the op
  is \<^verbatim>\<open>AluMov\<close>.
\<close>

partial_function (option) generateRegAluInstruction_loop ::
  "u8 \<Rightarrow> program \<Rightarrow> (u8 \<times> program) option" where
  "generateRegAluInstruction_loop op prog =
     (if op = AluNeg then
        (case RandRange (rng prog) 0x00 0x0c of
           (r, g) \<Rightarrow>
             generateRegAluInstruction_loop (push_bit 4 (word_of_nat r :: u8)) (prog\<lparr>rng := g\<rparr>))
      else Some (op, prog))"

definition generateRegAluInstruction ::
  "u8 \<Rightarrow> u8 \<Rightarrow> register option \<Rightarrow> program \<Rightarrow> (error + instruction \<times> program) option" where
  "generateRegAluInstruction op insClass dstReg prog =
     do {
       (n, prog1) \<leftarrow> GetRandomRegister prog;
       let srcReg = handle_of (GetRegisterFromNumber n);
       (op', prog2) \<leftarrow> generateRegAluInstruction_loop op prog1;
       (if op' = AluMov then
          (case dstReg of
             None \<Rightarrow> Some (Inl NilPointerDereference)
           | Some d \<Rightarrow>
               (let prog3 =
                  (if \<not> IsRegisterInitialized prog2 (RegisterNumber d)
                   then MarkRegisterInitialized prog2 (RegisterNumber d) else prog2)
                in Some (Inr (NewAluRegInstruction op' insClass dstReg srcReg, prog3))))
        else Some (Inr (NewAluRegInstruction op' insClass dstReg srcReg, prog2)))
     }"

definition GenerateRandomAluInstruction ::
  "program \<Rightarrow> (error + instruction \<times> program) option" where
  "GenerateRandomAluInstruction prog =
     (case RandRange (rng prog) 0x00 0x0c of
        (r, g) \<Rightarrow>
          (let op = push_bit 4 (word_of_nat r :: u8);
               prog1 = prog\<lparr>rng := g\<rparr>
           in do {
             (dstReg, prog2) \<leftarrow>
               (if op = AluMov then
                  (case RandRange (rng prog1) (unat (MinRegister prog1)) (unat (MaxRegister prog1)) of
                     (d, g') \<Rightarrow> Some (word_of_nat d :: u8, prog1\<lparr>rng := g'\<rparr>))
                else GetRandomRegister prog1);
             let dReg = handle_of (GetRegisterFromNumber dstReg);
             (case RandRange (rng prog2) 0 1 of
                (c, g3) \<Rightarrow>
                  (let insClass = (if c = 0 then InsClassAlu else InsClassAlu64);
                       prog3 = prog2\<lparr>rng := g3\<rparr>
                   in
                     (case RandRange (rng prog3) 0 1 of
                        (c', g4) \<Rightarrow>
                          (let prog4 = prog3\<lparr>rng := g4\<rparr>
                           in if c' = 0
                              then Some (generateImmAluInstruction op insClass dReg prog4)
                              else generateRegAluInstruction op insClass dReg prog4))))
           }))"

definition RandomJumpOp :: "program \<Rightarrow> u8 \<times> program" where
  "RandomJumpOp a = (case RandRange (rng a) 0x00 0x0d of (r, g) \<Rightarrow> (word_of_nat r, a\<lparr>rng := g\<rparr>))"

definition IsConditional :: "u8 \<Rightarrow> bool" where
  "IsConditional op = (\<not> (op = JmpExit \<or> op = JmpCALL \<or> op = JmpJA))"

text \<open>
  \<^verbatim>\<open>GenerateRandomJmpRegInstruction\<close>: its two loops, then the function. The first loop
  draws ops until one is conditional; the second draws source registers while the
  source handle equals the destination handle.
\<close>

partial_function (option) GenerateRandomJmpRegInstruction_op ::
  "program \<Rightarrow> (u8 \<times> program) option" where
  "GenerateRandomJmpRegInstruction_op prog =
     (case RandomJumpOp prog of
        (op, prog1) \<Rightarrow>
          (let op' = push_bit 4 op
           in if IsConditional op' then Some (op', prog1)
              else GenerateRandomJmpRegInstruction_op prog1))"

partial_function (option) GenerateRandomJmpRegInstruction_src ::
  "register option \<Rightarrow> register option \<Rightarrow> program \<Rightarrow> (register option \<times> program) option" where
  "GenerateRandomJmpRegInstruction_src dstReg srcReg prog =
     (if srcReg = dstReg then
        do {
          (n, prog1) \<leftarrow> GetRandomRegister prog;
          GenerateRandomJmpRegInstruction_src dstReg (handle_of (GetRegisterFromNumber n)) prog1
        }
      else Some (srcReg, prog))"

definition GenerateRandomJmpRegInstruction ::
  "program \<Rightarrow> branch_generator option \<Rightarrow> branch_generator option \<Rightarrow>
   (instruction \<times> program) option" where
  "GenerateRandomJmpRegInstruction prog trueBranchGen falseBranchGen =
     do {
       (op, prog1) \<leftarrow> GenerateRandomJmpRegInstruction_op prog;
       (d, prog2) \<leftarrow> GetRandomRegister prog1;
       let dstReg = handle_of (GetRegisterFromNumber d);
       (s, prog3) \<leftarrow> GetRandomRegister prog2;
       (srcReg, prog4) \<leftarrow>
         GenerateRandomJmpRegInstruction_src dstReg (handle_of (GetRegisterFromNumber s)) prog3;
       Some (RegJMPInstruction op InsClassJmp dstReg srcReg 0 trueBranchGen falseBranchGen
               None None, prog4)
     }"

section \<open>The sequence builder\<close>

text \<open>
  Modelled from the spec: the method \<^verbatim>\<open>SetNextInstruction\<close> of the nodes is declared
  outside the listed sources. The spec: \<^verbatim>\<open>set_next(n)\<close> appends a linear successor to a
  straight instruction; for branch instructions it is not used. Here it appends at the
  end of the chain of linear successors, and leaves a jump as it is.
\<close>

fun SetNextInstruction :: "instruction \<Rightarrow> instruction option \<Rightarrow> instruction" where
  "SetNextInstruction (AluImmInstruction op cl dst imm nxt) n =
     AluImmInstruction op cl dst imm
       (case nxt of None \<Rightarrow> n | Some i \<Rightarrow> Some (SetNextInstruction i n))"
| "SetNextInstruction (AluRegInstruction op cl dst src nxt) n =
     AluRegInstruction op cl dst src
       (case nxt of None \<Rightarrow> n | Some i \<Rightarrow> Some (SetNextInstruction i n))"
| "SetNextInstruction i n = i"

text \<open>
  The code builds the chain in place through two pointers: \<^verbatim>\<open>root\<close>, the first node,
  and \<^verbatim>\<open>ptr\<close>, the node appended last, which is the last node of the chain that hangs
  off \<^verbatim>\<open>root\<close>. Nodes are values here, so the loop carries \<open>root\<close> only, and the
  update through \<^verbatim>\<open>ptr\<close> is the update at the end of \<open>root\<close>'s chain:
  \<^verbatim>\<open>if root == nil { root = x; ptr = root } else { ptr.SetNextInstruction(x); ptr = x }\<close>
  is \<open>splice root x\<close>.
\<close>

definition splice :: "instruction option \<Rightarrow> instruction \<Rightarrow> instruction" where
  "splice root instruction =
     (case root of None \<Rightarrow> instruction | Some r \<Rightarrow> SetNextInstruction r (Some instruction))"

text \<open>
  \<^verbatim>\<open>instructionSequenceImpl\<close>, its \<^verbatim>\<open>for\<close> loop (over the instructions not yet
  visited, \<^verbatim>\<open>instructions[i:]\<close>) and \<^verbatim>\<open>handleJmpInstruction\<close>, which call each other.
  The slice expression \<^verbatim>\<open>instructions[1:trueBranchStartIndex]\<close> panics when its upper
  bound is below 1, which a negative offset causes.
\<close>

function instructionSequenceImpl :: "instruction list \<Rightarrow> error + instruction option"
  and instructionSequenceImpl_loop ::
    "instruction option \<Rightarrow> instruction list \<Rightarrow> error + instruction option"
  and handleJmpInstruction ::
    "instruction list \<Rightarrow> i16 \<Rightarrow> error + instruction option \<times> instruction option"
where
  "instructionSequenceImpl instructions =
     (if length instructions = 0 then Inr None
      else instructionSequenceImpl_loop None instructions)"
| "instructionSequenceImpl_loop root [] = Inr root"
| "instructionSequenceImpl_loop root (instruction # rest) =
     (case instruction of
        IMMJMPInstruction op cl imm dst fbs fnext tnext \<Rightarrow>
          if fbs = 0 \<and> op \<noteq> JmpExit then Inl InvalidZeroOffset
          else
            (case handleJmpInstruction (instruction # rest) fbs of
               Inl err \<Rightarrow> Inl err
             | Inr (falseBranchNextInstr, trueBranchNextInstr) \<Rightarrow>
                 Inr (Some (splice root
                   (IMMJMPInstruction op cl imm dst fbs falseBranchNextInstr trueBranchNextInstr))))
      | RegJMPInstruction op cl dst src fbs tgen fgen fnext tnext \<Rightarrow>
          if fbs = 0 then Inl InvalidZeroOffset
          else
            (case handleJmpInstruction (instruction # rest) fbs of
               Inl err \<Rightarrow> Inl err
             | Inr (falseBranchNextInstr, trueBranchNextInstr) \<Rightarrow>
                 Inr (Some (splice root
                   (RegJMPInstruction op cl dst src fbs tgen fgen
                      falseBranchNextInstr trueBranchNextInstr))))
      | _ \<Rightarrow> instructionSequenceImpl_loop (Some (splice root instruction)) rest)"
| "handleJmpInstruction instructions offset =
     (if length instructions = 0 then Inl EmptyJumpContext
      else
        (let trueBranchStartIndex = sint offset + 1
         in if trueBranchStartIndex > int (length instructions) then Inl JumpOutOfBounds
            else if trueBranchStartIndex < 1 then Inl SliceBoundsOutOfRange
            else
              (let falseBranchInstrs = take (nat trueBranchStartIndex - 1) (drop 1 instructions);
                   trueBranchInstrs = drop (nat trueBranchStartIndex) instructions
               in
                 (case instructionSequenceImpl falseBranchInstrs of
                    Inl err \<Rightarrow> Inl err
                  | Inr falseBranchNextInstr \<Rightarrow>
                      (case instructionSequenceImpl trueBranchInstrs of
                         Inl err \<Rightarrow> Inl err
                       | Inr trueBranchNextInstr \<Rightarrow>
                           Inr (falseBranchNextInstr, trueBranchNextInstr))))))"
  by pat_completeness auto
termination
  apply (relation "measure (\<lambda>x. case x of
            Inl xs \<Rightarrow> 3 * length xs + 2
          | Inr (Inl (r, xs)) \<Rightarrow> 3 * length xs + 1
          | Inr (Inr (xs, off)) \<Rightarrow> 3 * length xs)")
  apply auto
  done

declare instructionSequenceImpl.simps [simp del]
declare handleJmpInstruction.simps [simp del]

definition InstructionSequence :: "instruction list \<Rightarrow> error + instruction option" where
  "InstructionSequence instructions = instructionSequenceImpl instructions"

section \<open>Notions used to state the properties\<close>

text \<open>A jump node, of either kind.\<close>

fun is_jump :: "instruction \<Rightarrow> bool" where
  "is_jump (IMMJMPInstruction op cl imm dst fbs fnext tnext) = True"
| "is_jump (RegJMPInstruction op cl dst src fbs tgen fgen fnext tnext) = True"
| "is_jump i = False"

text \<open>
  A straight instruction as it stands in a flat input list: an ALU node that has no
  successor yet, as \<^verbatim>\<open>NewAluImmInstruction\<close> and \<^verbatim>\<open>NewAluRegInstruction\<close> return it.
\<close>

fun is_straight :: "instruction \<Rightarrow> bool" where
  "is_straight (AluImmInstruction op cl dst imm nxt) = (nxt = None)"
| "is_straight (AluRegInstruction op cl dst src nxt) = (nxt = None)"
| "is_straight i = False"

text \<open>
  The jumps that the builder refuses for their offset: an IMM-JMP with
  \<open>false_branch_size = 0\<close> whose opcode is not \<^verbatim>\<open>EXIT\<close>, and a Reg-JMP with
  \<open>false_branch_size = 0\<close>.
\<close>

fun zero_offset_jump :: "instruction \<Rightarrow> bool" where
  "zero_offset_jump (IMMJMPInstruction op cl imm dst fbs fnext tnext) =
     (fbs = 0 \<and> op \<noteq> JmpExit)"
| "zero_offset_jump (RegJMPInstruction op cl dst src fbs tgen fgen fnext tnext) = (fbs = 0)"
| "zero_offset_jump i = False"

text \<open>
  A jump whose false-branch size plus one exceeds the number of instructions that
  remain from the jump onward; \<open>ys\<close> is the jump followed by what remains.
\<close>

fun jump_out_of_bounds :: "instruction list \<Rightarrow> bool" where
  "jump_out_of_bounds [] = False"
| "jump_out_of_bounds (j # rest) =
     (is_jump j \<and> sint (FalseBranchSize j) + 1 > int (length (j # rest)))"

text \<open>
  \<open>meets xs ys\<close>: run on the list \<open>xs\<close>, the builder comes to examine the first
  instruction of \<open>ys\<close>, with \<open>ys\<close> the instructions that remain from there in the list
  at hand (the whole input, or the branch of a jump). It examines the first instruction;
  it goes on behind a straight one; behind a jump that passes the offset check and the
  bounds check it examines the false branch, and the true branch once the false branch
  is built.
\<close>

inductive meets :: "instruction list \<Rightarrow> instruction list \<Rightarrow> bool" where
  meets_here: "meets (i # rest) (i # rest)"
| meets_next: "\<not> is_jump i \<Longrightarrow> meets rest ys \<Longrightarrow> meets (i # rest) ys"
| meets_false:
    "is_jump i \<Longrightarrow> \<not> zero_offset_jump i \<Longrightarrow> 0 \<le> sint (FalseBranchSize i) \<Longrightarrow>
     sint (FalseBranchSize i) + 1 \<le> int (length (i # rest)) \<Longrightarrow>
     meets (take (nat (sint (FalseBranchSize i))) rest) ys \<Longrightarrow> meets (i # rest) ys"
| meets_true:
    "is_jump i \<Longrightarrow> \<not> zero_offset_jump i \<Longrightarrow> 0 \<le> sint (FalseBranchSize i) \<Longrightarrow>
     sint (FalseBranchSize i) + 1 \<le> int (length (i # rest)) \<Longrightarrow>
     instructionSequenceImpl (take (nat (sint (FalseBranchSize i))) rest) = Inr f \<Longrightarrow>
     meets (drop (nat (sint (FalseBranchSize i))) rest) ys \<Longrightarrow> meets (i # rest) ys"

code_pred meets .

text \<open>
  Walking the linear successor links from a root: the nodes visited, in order, each
  taken without its link. A jump has no linear successor and ends the walk.
\<close>

fun walk :: "instruction \<Rightarrow> instruction list" where
  "walk (AluImmInstruction op cl dst imm nxt) =
     AluImmInstruction op cl dst imm None # (case nxt of None \<Rightarrow> [] | Some n \<Rightarrow> walk n)"
| "walk (AluRegInstruction op cl dst src nxt) =
     AluRegInstruction op cl dst src None # (case nxt of None \<Rightarrow> [] | Some n \<Rightarrow> walk n)"
| "walk j = [j]"

definition walk_from :: "instruction option \<Rightarrow> instruction list" where
  "walk_from r = (case r of None \<Rightarrow> [] | Some i \<Rightarrow> walk i)"

text \<open>
  The invariant of the tracked-register list: every tracked register lies in
  \<open>[MinRegister, MaxRegister]\<close>.
\<close>

definition tracked_in_range :: "program \<Rightarrow> bool" where
  "tracked_in_range a =
     list_all (\<lambda>reg. MinRegister a \<le> reg \<and> reg \<le> MaxRegister a) (trackedRegs a)"

text \<open>A strategy whose \<^verbatim>\<open>Generate\<close> hook returns no root instruction.\<close>

definition no_root_generator :: generator where
  "no_root_generator =
     \<lparr>Generate = (\<lambda>prog. (None, prog)), GenerateNextInstruction = (\<lambda>prog. (None, prog))\<rparr>"

text \<open>Concrete inputs, for evaluating the definitions.\<close>

definition example_externals :: externals where
  "example_externals =
     \<lparr>create_bpf_map = (\<lambda>size. 3), clock_rng = sconst 0,
      NumerateInstruction = (\<lambda>instr start. start + 1)\<rparr>"

definition example_program :: program where
  "example_program =
     \<lparr>prog_root = None, prog_size = 0, trackedRegs = [], rng = sconst 0,
      logMap = 3, MapSize = 1, MinRegister = 1, MaxRegister = 9\<rparr>"

text \<open>
  A program that tracks the registers 1 and 2, with a generator whose next draws are
  9, 1, 0, 0, 1.
\<close>

definition example_jmp_program :: program where
  "example_jmp_program =
     \<lparr>prog_root = None, prog_size = 0, trackedRegs = [1, 2],
      rng = 9 ## 1 ## 0 ## 0 ## 1 ## sconst 0,
      logMap = 3, MapSize = 1, MinRegister = 1, MaxRegister = 9\<rparr>"

text \<open>Every register handle stored in the node is non-nil.\<close>

fun handles_non_nil :: "instruction \<Rightarrow> bool" where
  "handles_non_nil (AluImmInstruction op cl dst imm nxt) = (dst \<noteq> None)"
| "handles_non_nil (AluRegInstruction op cl dst src nxt) = (dst \<noteq> None \<and> src \<noteq> None)"
| "handles_non_nil (IMMJMPInstruction op cl imm dst fbs fnext tnext) = (dst \<noteq> None)"
| "handles_non_nil (RegJMPInstruction op cl dst src fbs tgen fgen fnext tnext) =
     (dst \<noteq> None \<and> src \<noteq> None)"

text \<open>
  A program that tracks the registers 3 and 5 within the bounds 1 and 9, and a program
  with the bounds 1 and 15 that tracks the register 12: the program that
  \<^verbatim>\<open>New(gen, 1, 1, 15)\<close> builds, after \<^verbatim>\<open>MarkRegisterInitialized(12)\<close>.
\<close>

definition example_alu_program :: program where
  "example_alu_program =
     \<lparr>prog_root = None, prog_size = 0, trackedRegs = [3, 5],
      rng = 0 ## 1 ## 1 ## 1 ## 0 ## sconst 0,
      logMap = 3, MapSize = 1, MinRegister = 1, MaxRegister = 9\<rparr>"

definition example_wide_program :: program where
  "example_wide_program =
     \<lparr>prog_root = None, prog_size = 0, trackedRegs = [12],
      rng = 0 ## 0 ## 0 ## 0 ## 7 ## sconst 0,
      logMap = 3, MapSize = 1, MinRegister = 1, MaxRegister = 15\<rparr>"

text \<open>
  A strategy whose \<^verbatim>\<open>Generate\<close> hook marks register 5 and then lowers the exported
  field \<^verbatim>\<open>MaxRegister\<close> to 3, and the program that \<^verbatim>\<open>New\<close> returns for it with the
  bounds 1 and 9.
\<close>

definition narrowing_generator :: generator where
  "narrowing_generator =
     \<lparr>Generate = (\<lambda>prog. (Some Exit, (MarkRegisterInitialized prog 5)\<lparr>MaxRegister := 3\<rparr>)),
      GenerateNextInstruction = (\<lambda>prog. (None, prog))\<rparr>"

definition narrowed_program :: program where
  "narrowed_program =
     \<lparr>prog_root = Some Exit, prog_size = 1, trackedRegs = [5], rng = sconst 0,
      logMap = 3, MapSize = 1, MinRegister = 1, MaxRegister = 3\<rparr>"

text \<open>
  A jump with its two branch successors set, as the builder's two assignments
  \<^verbatim>\<open>jmpInstr.FalseBranchNextInstr = ...\<close> and \<^verbatim>\<open>jmpInstr.TrueBranchNextInstr = ...\<close> leave
  it.
\<close>

fun with_branches :: "instruction \<Rightarrow> instruction option \<Rightarrow> instruction option \<Rightarrow> instruction" where
  "with_branches (IMMJMPInstruction op cl imm dst fbs fnext tnext) f t =
     IMMJMPInstruction op cl imm dst fbs f t"
| "with_branches (RegJMPInstruction op cl dst src fbs tgen fgen fnext tnext) f t =
     RegJMPInstruction op cl dst src fbs tgen fgen f t"
| "with_branches i f t = i"

text \<open>
  The error that the builder's loop raises at the instruction it examines, before it
  builds any branch; \<open>ys\<close> is that instruction followed by what remains. A jump is
  refused for a zero offset, then for an offset that leaves the list, then the slice
  expression panics on a negative offset.
\<close>

fun local_error :: "instruction list \<Rightarrow> error option" where
  "local_error [] = None"
| "local_error (j # rest) =
     (if \<not> is_jump j then None
      else if zero_offset_jump j then Some InvalidZeroOffset
      else if sint (FalseBranchSize j) + 1 > int (length (j # rest)) then Some JumpOutOfBounds
      else if sint (FalseBranchSize j) < 0 then Some SliceBoundsOutOfRange
      else None)"

section \<open>Basic facts\<close>

lemma RandRange_bounds:
  assumes "lo \<le> hi"
  shows "lo \<le> fst (RandRange g lo hi)" and "fst (RandRange g lo hi) \<le> hi"
proof -
  have "shd g mod Suc (hi - lo) < Suc (hi - lo)"
    by (rule mod_less_divisor) simp
  with assms have "lo + shd g mod Suc (hi - lo) \<le> hi"
    by linarith
  then show "fst (RandRange g lo hi) \<le> hi"
    by (simp add: RandRange_def)
  show "lo \<le> fst (RandRange g lo hi)"
    by (simp add: RandRange_def)
qed

lemma RandRange_snd: "snd (RandRange g lo hi) = stl g"
  by (simp add: RandRange_def)

section \<open>Program construction\<close>

text \<open>
  Claim C1. For a strategy whose \<^verbatim>\<open>Generate\<close> hook returns no root instruction,
  \<^verbatim>\<open>construct\<close> returns the error \<open>EmptyProgram\<close>, but \<^verbatim>\<open>New\<close> does not pass it on:
  whenever the map is created, \<^verbatim>\<open>New\<close> returns a program with no root and no error.
\<close>

theorem New_discards_EmptyProgram:
  "fst (construct ext no_root_generator a) = Some EmptyProgram \<and>
   New ext no_root_generator mapSize minReg maxReg =
     (if create_bpf_map ext mapSize < 0 then (None, Some MapCreationFailed)
      else (Some \<lparr>prog_root = None, prog_size = 0, trackedRegs = [], rng = clock_rng ext,
                   logMap = create_bpf_map ext mapSize, MapSize = mapSize,
                   MinRegister = minReg, MaxRegister = maxReg\<rparr>, None))"
  by (simp add: construct_def construct_start_def New_def no_root_generator_def Let_def)

section \<open>The authored constructors\<close>

text \<open>
  Claim C7. For every \<open>dstReg\<close>, \<open>imm\<close> and \<open>offset\<close>, \<^verbatim>\<open>JmpGT\<close> returns an IMM-JMP
  instruction whose \<open>DstReg\<close> is R0, whatever the \<open>dstReg\<close> argument is.
\<close>

theorem JmpGT_DstReg_R0:
  "JmpGT dstReg imm offset =
     IMMJMPInstruction JmpJGT InsClassJmp UnusedField (Some RegR0) offset None None \<and>
   DstReg (JmpGT dstReg imm offset) = Some RegR0"
  by (simp add: JmpGT_def)

section \<open>The random ALU-immediate factory\<close>

text \<open>
  Claim C2. The immediate of a shift is not always in \<open>[0, 31]\<close> or \<open>[0, 63]\<close>: when
  the generator draws \<open>0xFFFFFFFF\<close>, the \<^verbatim>\<open>int32\<close> value is \<open>-1\<close>, Go's remainder
  keeps the sign of the dividend, and \<^verbatim>\<open>generateImmAluInstruction\<close> emits the immediate
  \<open>-1\<close> for the op \<^verbatim>\<open>LSH\<close>, in class ALU and in class ALU64 alike.
\<close>

theorem generateImmAluInstruction_negative_shift:
  "generateImmAluInstruction AluLsh insClass dstReg (prog\<lparr>rng := 4294967295 ## g\<rparr>) =
     Inr (NewAluImmInstruction AluLsh insClass dstReg (- 1), prog\<lparr>rng := g\<rparr>) \<and>
   sint (- 1 :: i32) = - 1"
  by (simp add: generateImmAluInstruction_def RandRange_def AluLsh_def AluRsh_def AluArsh_def
      rem_i32_def signed_modulo_int_def)

section \<open>The tracked registers\<close>

lemma MarkRegisterInitialized_bounds [simp]:
  "MinRegister (MarkRegisterInitialized a reg) = MinRegister a"
  "MaxRegister (MarkRegisterInitialized a reg) = MaxRegister a"
  by (simp_all add: MarkRegisterInitialized_def)

lemma MarkRegisterInitialized_in_range:
  "tracked_in_range a \<Longrightarrow> tracked_in_range (MarkRegisterInitialized a reg)"
  by (simp add: tracked_in_range_def MarkRegisterInitialized_def)

lemma foldl_Mark_in_range:
  "tracked_in_range a \<Longrightarrow> tracked_in_range (foldl MarkRegisterInitialized a regs)"
  by (induction regs arbitrary: a) (simp_all add: MarkRegisterInitialized_in_range)

lemma construct_start_in_range: "tracked_in_range (construct_start ext a)"
  by (simp add: tracked_in_range_def construct_start_def)

lemma GetRandomRegister_loop_accept:
  "MinRegister a \<le> reg \<Longrightarrow> reg \<le> MaxRegister a \<Longrightarrow>
   GetRandomRegister_loop a reg = Some (reg, a)"
  by (subst GetRandomRegister_loop.simps) simp

lemma GetRandomRegister_first_draw:
  assumes inv: "tracked_in_range a" and ne: "trackedRegs a \<noteq> []"
  defines "reg \<equiv> trackedRegs a ! fst (RandRange (rng a) 0 (length (trackedRegs a) - 1))"
  shows "GetRandomRegister a = Some (reg, a\<lparr>rng := stl (rng a)\<rparr>)"
    and "MinRegister a \<le> reg" and "reg \<le> MaxRegister a" and "reg \<in> set (trackedRegs a)"
proof -
  let ?i = "fst (RandRange (rng a) 0 (length (trackedRegs a) - 1))"
  have "?i \<le> length (trackedRegs a) - 1"
    by (rule RandRange_bounds) simp
  with ne have lt: "?i < length (trackedRegs a)"
    by (cases "trackedRegs a") simp_all
  then show mem: "reg \<in> set (trackedRegs a)"
    by (simp add: reg_def)
  with inv show lo: "MinRegister a \<le> reg" and hi: "reg \<le> MaxRegister a"
    by (simp_all add: tracked_in_range_def list_all_iff)
  have "GetRandomRegister a = GetRandomRegister_loop (a\<lparr>rng := stl (rng a)\<rparr>) reg"
    using ne by (simp add: GetRandomRegister_def reg_def RandRange_def)
  also have "\<dots> = Some (reg, a\<lparr>rng := stl (rng a)\<rparr>)"
    using lo hi by (simp add: GetRandomRegister_loop_accept)
  finally show "GetRandomRegister a = Some (reg, a\<lparr>rng := stl (rng a)\<rparr>)" .
qed

text \<open>
  Claim C9, amended. As long as \<open>MinRegister\<close> and \<open>MaxRegister\<close> keep the values that
  \<^verbatim>\<open>New\<close> gave them: \<^verbatim>\<open>construct\<close> starts the tracked-register list empty, and
  \<^verbatim>\<open>MarkRegisterInitialized\<close> is the only function that changes it, so in every program
  reached from the start of \<^verbatim>\<open>construct\<close> by any sequence \<open>regs\<close> of
  \<^verbatim>\<open>MarkRegisterInitialized\<close> calls, every tracked register lies in
  \<open>[MinRegister, MaxRegister]\<close>; and when the list is not empty, \<^verbatim>\<open>GetRandomRegister\<close>,
  for every state \<open>g\<close> of the generator, returns after one draw (the generator is
  advanced once), and what it returns is the tracked register at the index drawn, which
  lies in the range.
\<close>

theorem tracked_registers_in_range:
  "tracked_in_range (foldl MarkRegisterInitialized (construct_start ext a) regs) \<and>
   (trackedRegs (foldl MarkRegisterInitialized (construct_start ext a) regs) \<noteq> [] \<longrightarrow>
     (let p = foldl MarkRegisterInitialized (construct_start ext a) regs;
          reg = trackedRegs p ! fst (RandRange g 0 (length (trackedRegs p) - 1))
      in GetRandomRegister (p\<lparr>rng := g\<rparr>) = Some (reg, p\<lparr>rng := stl g\<rparr>) \<and>
         MinRegister p \<le> reg \<and> reg \<le> MaxRegister p \<and> reg \<in> set (trackedRegs p)))"
proof -
  let ?p = "foldl MarkRegisterInitialized (construct_start ext a) regs"
  have inv: "tracked_in_range ?p"
    by (rule foldl_Mark_in_range) (rule construct_start_in_range)
  have inv': "tracked_in_range (?p\<lparr>rng := g\<rparr>)"
    using inv by (simp add: tracked_in_range_def)
  show ?thesis
  proof (intro conjI impI)
    assume ne: "trackedRegs ?p \<noteq> []"
    then have ne': "trackedRegs (?p\<lparr>rng := g\<rparr>) \<noteq> []" by simp
    from GetRandomRegister_first_draw [OF inv' ne']
    show "let p = ?p; reg = trackedRegs p ! fst (RandRange g 0 (length (trackedRegs p) - 1))
      in GetRandomRegister (p\<lparr>rng := g\<rparr>) = Some (reg, p\<lparr>rng := stl g\<rparr>) \<and>
         MinRegister p \<le> reg \<and> reg \<le> MaxRegister p \<and> reg \<in> set (trackedRegs p)"
      by (simp add: Let_def)
  qed (rule inv)
qed

text \<open>
  The theorem at a concrete program: bounds 1 and 9, the registers 3, 200, 0 and 5
  marked in this order (200 and 0 are discarded), and a generator whose next draw is 1.
\<close>

theorem tracked_registers_in_range_witness:
  "tracked_in_range
     (foldl MarkRegisterInitialized (construct_start example_externals example_program)
        [3, 200, 0, 5]) \<and>
   trackedRegs
     (foldl MarkRegisterInitialized (construct_start example_externals example_program)
        [3, 200, 0, 5]) = [3, 5] \<and>
   GetRandomRegister
     ((foldl MarkRegisterInitialized (construct_start example_externals example_program)
        [3, 200, 0, 5])\<lparr>rng := 1 ## sconst 0\<rparr>) =
     Some (5, (foldl MarkRegisterInitialized (construct_start example_externals example_program)
        [3, 200, 0, 5])\<lparr>rng := sconst 0\<rparr>)"
proof -
  have p: "foldl MarkRegisterInitialized (construct_start example_externals example_program)
        [3, 200, 0, 5] = example_program\<lparr>trackedRegs := [3, 5]\<rparr>"
    by (simp add: construct_start_def example_externals_def example_program_def
        MarkRegisterInitialized_def)
  show ?thesis
    using tracked_registers_in_range
      [of example_externals example_program "[3, 200, 0, 5]" "1 ## sconst 0"]
    unfolding p by (simp add: RandRange_def Let_def)
qed

lemma GetRandomRegister_loop_rejects_forever:
  assumes out: "list_all (\<lambda>r. \<not> (lo \<le> r \<and> r \<le> hi)) regs" and ne: "regs \<noteq> []"
  shows "trackedRegs a = regs \<Longrightarrow> MinRegister a = lo \<Longrightarrow> MaxRegister a = hi \<Longrightarrow>
         \<not> (lo \<le> reg \<and> reg \<le> hi) \<Longrightarrow> GetRandomRegister_loop a reg = None"
proof -
  have "\<not> (trackedRegs a = regs \<and> MinRegister a = lo \<and> MaxRegister a = hi \<and>
            \<not> (lo \<le> reg \<and> reg \<le> hi))"
    if ret: "GetRandomRegister_loop a reg = Some y" for a reg y
  proof (rule GetRandomRegister_loop.raw_induct
      [where P = "\<lambda>a reg y. \<not> (trackedRegs a = regs \<and> MinRegister a = lo \<and> MaxRegister a = hi \<and>
            \<not> (lo \<le> reg \<and> reg \<le> hi))", OF _ ret])
    fix loop :: "program \<Rightarrow> u8 \<Rightarrow> (u8 \<times> program) option" and a reg y
    assume IH: "\<And>a reg y. loop a reg = Some y \<Longrightarrow>
        \<not> (trackedRegs a = regs \<and> MinRegister a = lo \<and> MaxRegister a = hi \<and>
            \<not> (lo \<le> reg \<and> reg \<le> hi))"
      and body: "(if \<not> (MinRegister a \<le> reg \<and> reg \<le> MaxRegister a) then
        (case RandRange (rng a) 0 (length (trackedRegs a) - 1) of
           (i, g) \<Rightarrow> loop (a\<lparr>rng := g\<rparr>) (trackedRegs a ! i))
      else Some (reg, a)) = Some y"
    show "\<not> (trackedRegs a = regs \<and> MinRegister a = lo \<and> MaxRegister a = hi \<and>
            \<not> (lo \<le> reg \<and> reg \<le> hi))"
    proof
      assume h: "trackedRegs a = regs \<and> MinRegister a = lo \<and> MaxRegister a = hi \<and>
            \<not> (lo \<le> reg \<and> reg \<le> hi)"
      let ?i = "fst (RandRange (rng a) 0 (length regs - 1))"
      have "?i \<le> length regs - 1" by (rule RandRange_bounds) simp
      with ne have "?i < length regs" by (cases regs) simp_all
      then have "regs ! ?i \<in> set regs" by simp
      with out have rej: "\<not> (lo \<le> regs ! ?i \<and> regs ! ?i \<le> hi)"
        by (simp add: list_all_iff)
      from body h have "loop (a\<lparr>rng := snd (RandRange (rng a) 0 (length regs - 1))\<rparr>) (regs ! ?i) = Some y"
        by (simp split: prod.splits)
      from IH [OF this] h rej show False by simp
    qed
  qed
  then show "trackedRegs a = regs \<Longrightarrow> MinRegister a = lo \<Longrightarrow> MaxRegister a = hi \<Longrightarrow>
         \<not> (lo \<le> reg \<and> reg \<le> hi) \<Longrightarrow> GetRandomRegister_loop a reg = None"
    by (cases "GetRandomRegister_loop a reg") auto
qed

text \<open>
  Claim C9 as stated fails when a bound is changed after a register was marked: the
  two bounds are exported fields, and \<^verbatim>\<open>MarkRegisterInitialized\<close> checks them only when
  it appends. For the strategy that marks register 5 and then sets \<^verbatim>\<open>MaxRegister\<close> to 3,
  \<^verbatim>\<open>New\<close> returns a program whose list \<open>[5]\<close> is non-empty and outside \<open>[1, 3]\<close>, on
  which \<^verbatim>\<open>GetRandomRegister\<close> rejects every draw and never returns.
\<close>

theorem tracked_register_outside_changed_bounds:
  "New example_externals narrowing_generator 1 1 9 = (Some narrowed_program, None) \<and>
   trackedRegs narrowed_program = [5] \<and>
   MinRegister narrowed_program = 1 \<and> MaxRegister narrowed_program = 3 \<and>
   \<not> tracked_in_range narrowed_program \<and>
   (\<forall>g. GetRandomRegister (narrowed_program\<lparr>rng := g\<rparr>) = None)"
proof -
  have new: "New example_externals narrowing_generator 1 1 9 = (Some narrowed_program, None)"
    by (simp add: New_def construct_def construct_start_def example_externals_def
        narrowing_generator_def narrowed_program_def MarkRegisterInitialized_def Let_def)
  have out: "list_all (\<lambda>r. \<not> ((1 :: u8) \<le> r \<and> r \<le> 3)) [5]" by simp
  have "GetRandomRegister (narrowed_program\<lparr>rng := g\<rparr>) = None" for g
    using GetRandomRegister_loop_rejects_forever [OF out, of _ 5]
    by (simp add: GetRandomRegister_def narrowed_program_def RandRange_def)
  with new show ?thesis
    by (simp add: narrowed_program_def tracked_in_range_def)
qed

section \<open>The random JMP-reg factory\<close>

lemma op_loop_conditional:
  assumes "GenerateRandomJmpRegInstruction_op prog = Some r"
  shows "IsConditional (fst r)"
proof (rule GenerateRandomJmpRegInstruction_op.raw_induct
    [where P = "\<lambda>_ r. IsConditional (fst r)", OF _ assms])
  fix loop :: "program \<Rightarrow> (u8 \<times> program) option" and prog r
  assume IH: "\<And>x y. loop x = Some y \<Longrightarrow> IsConditional (fst y)"
    and body: "(case RandomJumpOp prog of
        (op, prog1) \<Rightarrow>
          (let op' = push_bit 4 op
           in if IsConditional op' then Some (op', prog1) else loop prog1)) = Some r"
  from body show "IsConditional (fst r)"
    by (auto simp: Let_def split: prod.splits if_splits dest: IH)
qed

lemma src_loop_differs:
  assumes "GenerateRandomJmpRegInstruction_src dstReg srcReg prog = Some r"
  shows "fst r \<noteq> dstReg"
proof (rule GenerateRandomJmpRegInstruction_src.raw_induct
    [where P = "\<lambda>dstReg _ _ r. fst r \<noteq> dstReg", OF _ assms])
  fix loop :: "register option \<Rightarrow> register option \<Rightarrow> program \<Rightarrow> (register option \<times> program) option"
    and dstReg srcReg prog r
  assume IH: "\<And>d s p y. loop d s p = Some y \<Longrightarrow> fst y \<noteq> d"
    and body: "(if srcReg = dstReg then
        do {
          (n, prog1) \<leftarrow> GetRandomRegister prog;
          loop dstReg (handle_of (GetRegisterFromNumber n)) prog1
        }
      else Some (srcReg, prog)) = Some r"
  from body show "fst r \<noteq> dstReg"
    by (auto simp: bind_eq_Some_conv split: if_splits prod.splits dest: IH)
qed

text \<open>
  Claim C8. Every instruction that \<^verbatim>\<open>GenerateRandomJmpRegInstruction\<close> returns, for
  every program and every outcome of the generator, has a destination handle different
  from its source handle and an opcode that is none of \<^verbatim>\<open>EXIT\<close>, \<^verbatim>\<open>CALL\<close>, \<^verbatim>\<open>JA\<close>.
  (The claim's programs, with at least two distinct initialized registers, are among
  them; on other programs the function may not return at all.)
\<close>

theorem GenerateRandomJmpRegInstruction_distinct_conditional:
  assumes ret:
    "GenerateRandomJmpRegInstruction prog trueBranchGen falseBranchGen = Some (instr, prog')"
  shows "DstReg instr \<noteq> SrcReg instr \<and>
    Opcode instr \<noteq> JmpExit \<and> Opcode instr \<noteq> JmpCALL \<and> Opcode instr \<noteq> JmpJA"
proof -
  from ret obtain op prog1 d prog2 s prog3 srcReg where
    op: "GenerateRandomJmpRegInstruction_op prog = Some (op, prog1)" and
    d: "GetRandomRegister prog1 = Some (d, prog2)" and
    s: "GetRandomRegister prog2 = Some (s, prog3)" and
    src: "GenerateRandomJmpRegInstruction_src (handle_of (GetRegisterFromNumber d))
            (handle_of (GetRegisterFromNumber s)) prog3 = Some (srcReg, prog')" and
    instr: "instr = RegJMPInstruction op InsClassJmp (handle_of (GetRegisterFromNumber d))
              srcReg 0 trueBranchGen falseBranchGen None None"
    by (auto simp: GenerateRandomJmpRegInstruction_def bind_eq_Some_conv Let_def)
  from op_loop_conditional [OF op] have "IsConditional op" by simp
  moreover from src_loop_differs [OF src]
  have "srcReg \<noteq> handle_of (GetRegisterFromNumber d)" by simp
  ultimately show ?thesis
    by (auto simp: instr IsConditional_def)
qed

text \<open>
  The theorem at a program that tracks the registers 1 and 2: the first op drawn is
  \<^verbatim>\<open>EXIT\<close> and is drawn again, the first source register drawn equals the destination
  and is drawn again, and the function returns \<^verbatim>\<open>JEQ R1, R2\<close>.
\<close>

theorem GenerateRandomJmpRegInstruction_distinct_conditional_witness:
  "GenerateRandomJmpRegInstruction example_jmp_program None None =
     Some (RegJMPInstruction JmpJEQ InsClassJmp (Some RegR1) (Some RegR2) 0 None None None None,
           example_jmp_program\<lparr>rng := sconst 0\<rparr>) \<and>
   Some RegR1 \<noteq> Some RegR2 \<and> JmpJEQ \<noteq> JmpExit \<and> JmpJEQ \<noteq> JmpCALL \<and> JmpJEQ \<noteq> JmpJA"
proof -
  have ret: "GenerateRandomJmpRegInstruction example_jmp_program None None =
     Some (RegJMPInstruction JmpJEQ InsClassJmp (Some RegR1) (Some RegR2) 0 None None None None,
           example_jmp_program\<lparr>rng := sconst 0\<rparr>)"
    by (simp add: GenerateRandomJmpRegInstruction_def example_jmp_program_def
        GenerateRandomJmpRegInstruction_op.simps GenerateRandomJmpRegInstruction_src.simps
        GetRandomRegister_def GetRandomRegister_loop.simps RandomJumpOp_def RandRange_def
        IsConditional_def JmpExit_def JmpCALL_def JmpJA_def JmpJEQ_def
        GetRegisterFromNumber_def handle_of_def)
  from GenerateRandomJmpRegInstruction_distinct_conditional [OF ret] show ?thesis
    using ret by simp
qed

section \<open>The random ALU factory\<close>

lemma GetRegisterFromNumber_le_10:
  assumes "n \<le> 10"
  shows "\<exists>r. GetRegisterFromNumber n = Inr r"
proof -
  from assms have "unat n \<le> 10" by (simp add: word_le_nat_alt)
  then have "unat n = 0 \<or> unat n = 1 \<or> unat n = 2 \<or> unat n = 3 \<or> unat n = 4 \<or>
      unat n = 5 \<or> unat n = 6 \<or> unat n = 7 \<or> unat n = 8 \<or> unat n = 9 \<or> unat n = 10"
    by arith
  then have "n = 0 \<or> n = 1 \<or> n = 2 \<or> n = 3 \<or> n = 4 \<or> n = 5 \<or> n = 6 \<or> n = 7 \<or>
      n = 8 \<or> n = 9 \<or> n = 10"
    by (simp add: word_unat_eq_iff)
  then show ?thesis
    by (auto simp: GetRegisterFromNumber_def)
qed

lemma handle_of_le_10: "n \<le> 10 \<Longrightarrow> \<exists>r. handle_of (GetRegisterFromNumber n) = Some r"
  using GetRegisterFromNumber_le_10 [of n] by (auto simp: handle_of_def)

lemma GetRegisterFromNumber_gt_10:
  "10 < n \<Longrightarrow> GetRegisterFromNumber n = Inl UnknownRegister"
  by (auto simp: GetRegisterFromNumber_def)

lemma of_nat_le_10: "d \<le> 10 \<Longrightarrow> (word_of_nat d :: u8) \<le> 10"
  by (simp add: word_le_nat_alt unat_of_nat) 


lemma GetRandomRegister_lookup:
  assumes inv: "tracked_in_range a" and ne: "trackedRegs a \<noteq> []" and max: "MaxRegister a \<le> 10"
  shows "\<exists>n r. GetRandomRegister a = Some (n, a\<lparr>rng := stl (rng a)\<rparr>) \<and>
           handle_of (GetRegisterFromNumber n) = Some r"
proof -
  let ?n = "trackedRegs a ! fst (RandRange (rng a) 0 (length (trackedRegs a) - 1))"
  from GetRandomRegister_first_draw [OF inv ne]
  have ret: "GetRandomRegister a = Some (?n, a\<lparr>rng := stl (rng a)\<rparr>)" and "?n \<le> MaxRegister a"
    by simp_all
  with max have "?n \<le> 10" by simp
  from handle_of_le_10 [OF this] ret show ?thesis by blast
qed

lemma mov_draw_lookup:
  assumes inv: "tracked_in_range a" and ne: "trackedRegs a \<noteq> []" and max: "MaxRegister a \<le> 10"
  shows "\<exists>r. handle_of (GetRegisterFromNumber
           (word_of_nat (fst (RandRange g (unat (MinRegister a)) (unat (MaxRegister a)))) :: u8)) = Some r"
proof -
  from ne obtain reg where "reg \<in> set (trackedRegs a)" by (cases "trackedRegs a") auto
  with inv have "MinRegister a \<le> reg" and "reg \<le> MaxRegister a"
    by (simp_all add: tracked_in_range_def list_all_iff)
  then have "unat (MinRegister a) \<le> unat (MaxRegister a)"
    by (simp add: word_le_nat_alt)
  then have "fst (RandRange g (unat (MinRegister a)) (unat (MaxRegister a))) \<le> unat (MaxRegister a)"
    by (rule RandRange_bounds)
  moreover from max have "unat (MaxRegister a) \<le> 10" by (simp add: word_le_nat_alt)
  ultimately have "fst (RandRange g (unat (MinRegister a)) (unat (MaxRegister a))) \<le> 10" by simp
  then show ?thesis by (intro handle_of_le_10 of_nat_le_10)
qed

lemma generateImmAluInstruction_non_nil:
  "\<exists>instr p'. generateImmAluInstruction op c (Some d) p = Inr (instr, p') \<and> handles_non_nil instr"
  by (simp add: generateImmAluInstruction_def Let_def NewAluImmInstruction_def split: prod.splits)

lemma generateRegAluInstruction_non_nil:
  assumes inv: "tracked_in_range a" and ne: "trackedRegs a \<noteq> []" and max: "MaxRegister a \<le> 10"
    and ret: "generateRegAluInstruction op c (Some d) a = Some res"
  shows "\<exists>instr p'. res = Inr (instr, p') \<and> handles_non_nil instr"
proof -
  from GetRandomRegister_lookup [OF inv ne max] obtain n r where
    "GetRandomRegister a = Some (n, a\<lparr>rng := stl (rng a)\<rparr>)"
    "handle_of (GetRegisterFromNumber n) = Some r" by blast
  with ret show ?thesis
    by (auto simp: generateRegAluInstruction_def bind_eq_Some_conv Let_def NewAluRegInstruction_def
        split: if_splits)
qed

lemma GenerateRandomAluInstruction_non_nil:
  assumes inv: "tracked_in_range a" and ne: "trackedRegs a \<noteq> []" and max: "MaxRegister a \<le> 10"
    and ret: "GenerateRandomAluInstruction a = Some res"
  shows "\<exists>instr p'. res = Inr (instr, p') \<and> handles_non_nil instr"
proof -
  obtain r g where first: "RandRange (rng a) 0x00 0x0c = (r, g)" by (cases "RandRange (rng a) 0x00 0x0c")
  define op where "op = push_bit 4 (word_of_nat r :: u8)"
  define a1 where "a1 = a\<lparr>rng := g\<rparr>"
  have a1: "tracked_in_range a1" "trackedRegs a1 \<noteq> []" "MaxRegister a1 \<le> 10"
    using inv ne max by (simp_all add: a1_def tracked_in_range_def)
  have "\<exists>dstReg d a2. (if op = AluMov then
                  (case RandRange (rng a1) (unat (MinRegister a1)) (unat (MaxRegister a1)) of
                     (d, g') \<Rightarrow> Some (word_of_nat d :: u8, a1\<lparr>rng := g'\<rparr>))
                else GetRandomRegister a1) = Some (dstReg, a2) \<and>
            handle_of (GetRegisterFromNumber dstReg) = Some d \<and>
            tracked_in_range a2 \<and> trackedRegs a2 \<noteq> [] \<and> MaxRegister a2 \<le> 10"
  proof (cases "op = AluMov")
    case True
    from mov_draw_lookup [OF a1, of "rng a1"] a1 show ?thesis
      by (auto simp: True tracked_in_range_def split: prod.splits)
  next
    case False
    from GetRandomRegister_lookup [OF a1] a1 show ?thesis
      by (auto simp: False tracked_in_range_def)
  qed
  then obtain dstReg d a2 where
    dst: "(if op = AluMov then
                  (case RandRange (rng a1) (unat (MinRegister a1)) (unat (MaxRegister a1)) of
                     (d, g') \<Rightarrow> Some (word_of_nat d :: u8, a1\<lparr>rng := g'\<rparr>))
                else GetRandomRegister a1) = Some (dstReg, a2)" and
    d: "handle_of (GetRegisterFromNumber dstReg) = Some d" and
    a2: "tracked_in_range a2" "trackedRegs a2 \<noteq> []" "MaxRegister a2 \<le> 10"
    by blast
  obtain c g3 where c: "RandRange (rng a2) 0 1 = (c, g3)" by (cases "RandRange (rng a2) 0 1")
  obtain c' g4 where c': "RandRange g3 0 1 = (c', g4)" by (cases "RandRange g3 0 1")
  define a4 where "a4 = a2\<lparr>rng := g4\<rparr>"
  have a4: "tracked_in_range a4" "trackedRegs a4 \<noteq> []" "MaxRegister a4 \<le> 10"
    using a2 by (simp_all add: a4_def tracked_in_range_def)
  define insClass where "insClass = (if c = 0 then InsClassAlu else InsClassAlu64)"
  show ?thesis
  proof (cases "c' = 0")
    case True
    from ret have "generateImmAluInstruction op insClass (Some d) a4 = res"
      using first dst [unfolded op_def a1_def] d c c' True
      by (auto simp: GenerateRandomAluInstruction_def Let_def op_def insClass_def a4_def)
    with generateImmAluInstruction_non_nil [of op insClass d a4] show ?thesis by auto
  next
    case False
    from ret have "generateRegAluInstruction op insClass (Some d) a4 = Some res"
      using first dst [unfolded op_def a1_def] d c c' False
      by (auto simp: GenerateRandomAluInstruction_def Let_def op_def insClass_def a4_def)
    from generateRegAluInstruction_non_nil [OF a4 this] show ?thesis .
  qed
qed


text \<open>
  Claim C10, amended. On a program whose tracked-register list is non-empty and within
  \<open>[MinRegister, MaxRegister]\<close>, and whose \<open>MaxRegister\<close> is at most 10, every register
  number that \<^verbatim>\<open>GenerateRandomAluInstruction\<close> and its two helpers pass to
  \<^verbatim>\<open>GetRegisterFromNumber\<close> is looked up with success: the number is what
  \<^verbatim>\<open>GetRandomRegister\<close> returns, or (for \<^verbatim>\<open>MOV\<close>) a draw from
  \<open>[MinRegister, MaxRegister]\<close>, and both give a non-nil handle for every state of the
  generator; and whenever the factory returns, it returns an instruction (it has not
  panicked) whose register handles are all non-nil. On a program with an empty list,
  the draws \<open>8, c, 1, 11\<close> (the op \<^verbatim>\<open>NEG\<close>, any class, the register form, then the op
  \<^verbatim>\<open>MOV\<close> drawn in place of \<^verbatim>\<open>NEG\<close>) make \<^verbatim>\<open>GetRandomRegister\<close> return \<open>0xFF\<close>, whose
  lookup fails with a nil handle, which the factory then reads through: it panics.
\<close>

theorem GenerateRandomAluInstruction_lookups:
  "(tracked_in_range prog \<and> trackedRegs prog \<noteq> [] \<and> MaxRegister prog \<le> 10 \<longrightarrow>
      (\<exists>n r. GetRandomRegister prog = Some (n, prog\<lparr>rng := stl (rng prog)\<rparr>) \<and>
             handle_of (GetRegisterFromNumber n) = Some r) \<and>
      (\<exists>r. handle_of (GetRegisterFromNumber
             (word_of_nat (fst (RandRange g (unat (MinRegister prog)) (unat (MaxRegister prog))))
                :: u8)) = Some r) \<and>
      (\<forall>res. GenerateRandomAluInstruction prog = Some res \<longrightarrow>
         (\<exists>instr prog'. res = Inr (instr, prog') \<and> handles_non_nil instr))) \<and>
   push_bit 4 (word_of_nat (fst (RandRange (8 ## c ## 1 ## 11 ## g') 0x00 0x0c)) :: u8) \<noteq> AluMov \<and>
   GetRandomRegister (prog\<lparr>trackedRegs := [], rng := c ## 1 ## 11 ## g'\<rparr>) =
     Some (0xFF, prog\<lparr>trackedRegs := [], rng := c ## 1 ## 11 ## g'\<rparr>) \<and>
   GetRegisterFromNumber 0xFF = Inl UnknownRegister \<and>
   handle_of (GetRegisterFromNumber 0xFF) = None \<and>
   GenerateRandomAluInstruction (prog\<lparr>trackedRegs := [], rng := 8 ## c ## 1 ## 11 ## g'\<rparr>) =
     Some (Inl NilPointerDereference)"
proof (intro conjI impI allI)
  assume h: "tracked_in_range prog \<and> trackedRegs prog \<noteq> [] \<and> MaxRegister prog \<le> 10"
  then have inv: "tracked_in_range prog" and ne: "trackedRegs prog \<noteq> []"
    and max: "MaxRegister prog \<le> 10" by simp_all
  show "\<exists>n r. GetRandomRegister prog = Some (n, prog\<lparr>rng := stl (rng prog)\<rparr>) \<and>
             handle_of (GetRegisterFromNumber n) = Some r"
    by (rule GetRandomRegister_lookup [OF inv ne max])
  show "\<exists>r. handle_of (GetRegisterFromNumber
             (word_of_nat (fst (RandRange g (unat (MinRegister prog)) (unat (MaxRegister prog))))
                :: u8)) = Some r"
    by (rule mov_draw_lookup [OF inv ne max])
  fix res assume "GenerateRandomAluInstruction prog = Some res"
  then show "\<exists>instr prog'. res = Inr (instr, prog') \<and> handles_non_nil instr"
    by (rule GenerateRandomAluInstruction_non_nil [OF inv ne max])
next
  show "push_bit 4 (word_of_nat (fst (RandRange (8 ## c ## 1 ## 11 ## g') 0x00 0x0c)) :: u8) \<noteq> AluMov"
    by (simp add: RandRange_def AluMov_def)
  show "GetRandomRegister (prog\<lparr>trackedRegs := [], rng := c ## 1 ## 11 ## g'\<rparr>) =
     Some (0xFF, prog\<lparr>trackedRegs := [], rng := c ## 1 ## 11 ## g'\<rparr>)"
    by (simp add: GetRandomRegister_def)
  show unknown: "GetRegisterFromNumber 0xFF = Inl UnknownRegister"
    by (simp add: GetRegisterFromNumber_def)
  then show "handle_of (GetRegisterFromNumber 0xFF) = None"
    by (simp add: handle_of_def)
  show "GenerateRandomAluInstruction (prog\<lparr>trackedRegs := [], rng := 8 ## c ## 1 ## 11 ## g'\<rparr>) =
     Some (Inl NilPointerDereference)"
    by (simp add: GenerateRandomAluInstruction_def generateRegAluInstruction_def
        generateRegAluInstruction_loop.simps GetRandomRegister_def RandRange_def Let_def
        AluMov_def AluNeg_def unknown handle_of_def)
qed

text \<open>
  The theorem at a program that tracks the registers 3 and 5: the factory returns
  \<^verbatim>\<open>ADD64 R5, R3\<close>; and with the list emptied it panics.
\<close>

theorem GenerateRandomAluInstruction_lookups_witness:
  "GenerateRandomAluInstruction example_alu_program =
     Some (Inr (AluRegInstruction AluAdd InsClassAlu64 (Some RegR5) (Some RegR3) None,
                example_alu_program\<lparr>rng := sconst 0\<rparr>)) \<and>
   handles_non_nil (AluRegInstruction AluAdd InsClassAlu64 (Some RegR5) (Some RegR3) None) \<and>
   GenerateRandomAluInstruction
     (example_alu_program\<lparr>trackedRegs := [], rng := 8 ## 0 ## 1 ## 11 ## sconst 0\<rparr>) =
     Some (Inl NilPointerDereference)"
proof -
  have ret: "GenerateRandomAluInstruction example_alu_program =
     Some (Inr (AluRegInstruction AluAdd InsClassAlu64 (Some RegR5) (Some RegR3) None,
                example_alu_program\<lparr>rng := sconst 0\<rparr>))"
    by (simp add: GenerateRandomAluInstruction_def generateRegAluInstruction_def
        generateRegAluInstruction_loop.simps GetRandomRegister_def GetRandomRegister_loop.simps
        RandRange_def Let_def example_alu_program_def NewAluRegInstruction_def
        AluMov_def AluNeg_def AluAdd_def GetRegisterFromNumber_def handle_of_def)
  have hyps: "tracked_in_range example_alu_program \<and> trackedRegs example_alu_program \<noteq> [] \<and>
      MaxRegister example_alu_program \<le> 10"
    by (simp add: tracked_in_range_def example_alu_program_def)
  from GenerateRandomAluInstruction_lookups [of example_alu_program "sconst 0" 0 "sconst 0"] hyps ret
  show ?thesis by auto
qed

text \<open>
  Claim C10 as stated fails when \<open>MaxRegister\<close> exceeds 10: the program with the bounds
  1 and 15 tracks the register 12, its list is non-empty, the lookup of 12 fails, and
  the factory returns an instruction whose destination handle is nil.
\<close>

theorem GenerateRandomAluInstruction_lookup_fails_above_R10:
  "tracked_in_range example_wide_program \<and> trackedRegs example_wide_program \<noteq> [] \<and>
   MarkRegisterInitialized (example_wide_program\<lparr>trackedRegs := []\<rparr>) 12 = example_wide_program \<and>
   GetRegisterFromNumber 12 = Inl UnknownRegister \<and>
   GenerateRandomAluInstruction example_wide_program =
     Some (Inr (AluImmInstruction AluAdd InsClassAlu None 7 None,
                example_wide_program\<lparr>rng := sconst 0\<rparr>))"
  by (simp add: GenerateRandomAluInstruction_def generateImmAluInstruction_def
      GetRandomRegister_def GetRandomRegister_loop.simps MarkRegisterInitialized_def
      RandRange_def Let_def example_wide_program_def NewAluImmInstruction_def tracked_in_range_def
      AluMov_def AluNeg_def AluAdd_def AluLsh_def AluRsh_def AluArsh_def
      GetRegisterFromNumber_def handle_of_def)

section \<open>The sequence builder: its equations\<close>

lemma impl_Nil [simp]: "instructionSequenceImpl [] = Inr None"
  by (simp add: instructionSequenceImpl.simps)

lemma impl_Cons: "instructionSequenceImpl (i # rest) = instructionSequenceImpl_loop None (i # rest)"
  by (simp add: instructionSequenceImpl.simps)

lemma handle_Nil [simp]: "handleJmpInstruction [] offset = Inl EmptyJumpContext"
  by (simp add: handleJmpInstruction.simps)

lemma handle_Cons:
  "handleJmpInstruction (j # rest) offset =
     (if sint offset + 1 > int (length (j # rest)) then Inl JumpOutOfBounds
      else if sint offset < 0 then Inl SliceBoundsOutOfRange
      else
        (case instructionSequenceImpl (take (nat (sint offset)) rest) of
           Inl err \<Rightarrow> Inl err
         | Inr f \<Rightarrow>
             (case instructionSequenceImpl (drop (nat (sint offset)) rest) of
                Inl err \<Rightarrow> Inl err
              | Inr t \<Rightarrow> Inr (f, t))))"
proof -
  have "0 \<le> sint offset \<Longrightarrow> nat (sint offset + 1) - 1 = nat (sint offset)"
    by simp
  moreover have "0 \<le> sint offset \<Longrightarrow> drop (nat (sint offset + 1)) (j # rest) = drop (nat (sint offset)) rest"
    by (simp add: nat_add_distrib)
  ultimately show ?thesis
    by (simp add: handleJmpInstruction.simps Let_def)
qed

lemma splice_None [simp]: "splice None i = i"
  by (simp add: splice_def)

lemma splice_Some [simp]: "splice (Some r) i = SetNextInstruction r (Some i)"
  by (simp add: splice_def)

lemma loop_straight:
  "\<not> is_jump i \<Longrightarrow>
   instructionSequenceImpl_loop root (i # rest) =
     instructionSequenceImpl_loop (Some (splice root i)) rest"
  by (cases i) simp_all

lemma loop_jump:
  "is_jump j \<Longrightarrow>
   instructionSequenceImpl_loop root (j # rest) =
     (if zero_offset_jump j then Inl InvalidZeroOffset
      else
        (case handleJmpInstruction (j # rest) (FalseBranchSize j) of
           Inl err \<Rightarrow> Inl err
         | Inr (f, t) \<Rightarrow> Inr (Some (splice root (with_branches j f t)))))"
  by (cases j) (simp_all split: sum.splits prod.splits)

declare instructionSequenceImpl_loop.simps(2) [simp del]

lemma loop_error_root:
  "instructionSequenceImpl_loop root xs = Inl e \<Longrightarrow> instructionSequenceImpl_loop root' xs = Inl e"
proof (induction xs arbitrary: root root')
  case Nil
  then show ?case by simp
next
  case (Cons i rest)
  show ?case
  proof (cases "is_jump i")
    case True
    with Cons.prems show ?thesis
      by (simp add: loop_jump split: if_splits sum.splits prod.splits)
  next
    case False
    with Cons show ?thesis
      by (simp add: loop_straight)
  qed
qed

lemma impl_straight_error:
  assumes "\<not> is_jump i"
  shows "instructionSequenceImpl (i # rest) = Inl e \<longleftrightarrow> instructionSequenceImpl rest = Inl e"
proof (cases rest)
  case Nil
  with assms show ?thesis by (simp add: impl_Cons loop_straight)
next
  case (Cons a list)
  with assms show ?thesis
    by (auto simp: impl_Cons loop_straight dest: loop_error_root)
qed

lemma impl_jump:
  assumes "is_jump j"
  shows "instructionSequenceImpl (j # rest) =
     (if zero_offset_jump j then Inl InvalidZeroOffset
      else
        (case handleJmpInstruction (j # rest) (FalseBranchSize j) of
           Inl err \<Rightarrow> Inl err
         | Inr (f, t) \<Rightarrow> Inr (Some (with_branches j f t))))"
  using assms by (simp add: impl_Cons loop_jump split: sum.splits prod.splits)


lemma zero_offset_jump_size: "zero_offset_jump j \<Longrightarrow> sint (FalseBranchSize j) = 0"
  by (cases j) simp_all

lemma zero_offset_is_jump: "zero_offset_jump j \<Longrightarrow> is_jump j"
  by (cases j) simp_all

lemma meets_Nil [simp]: "\<not> meets [] ys"
  by (auto elim: meets.cases)

lemma meets_straight:
  "\<not> is_jump i \<Longrightarrow> meets (i # rest) ys \<longleftrightarrow> ys = i # rest \<or> meets rest ys"
  by (auto elim: meets.cases intro: meets.intros)

lemma meets_jump:
  assumes "is_jump j"
  shows "meets (j # rest) ys \<longleftrightarrow>
     ys = j # rest \<or>
     (local_error (j # rest) = None \<and>
      (meets (take (nat (sint (FalseBranchSize j))) rest) ys \<or>
       (\<exists>f. instructionSequenceImpl (take (nat (sint (FalseBranchSize j))) rest) = Inr f) \<and>
       meets (drop (nat (sint (FalseBranchSize j))) rest) ys))"
proof
  assume "meets (j # rest) ys"
  then show "ys = j # rest \<or>
     (local_error (j # rest) = None \<and>
      (meets (take (nat (sint (FalseBranchSize j))) rest) ys \<or>
       (\<exists>f. instructionSequenceImpl (take (nat (sint (FalseBranchSize j))) rest) = Inr f) \<and>
       meets (drop (nat (sint (FalseBranchSize j))) rest) ys))"
    using assms by (cases rule: meets.cases) auto
next
  assume r: "ys = j # rest \<or>
     (local_error (j # rest) = None \<and>
      (meets (take (nat (sint (FalseBranchSize j))) rest) ys \<or>
       (\<exists>f. instructionSequenceImpl (take (nat (sint (FalseBranchSize j))) rest) = Inr f) \<and>
       meets (drop (nat (sint (FalseBranchSize j))) rest) ys))"
  show "meets (j # rest) ys"
  proof (cases "ys = j # rest")
    case True
    then show ?thesis by (simp add: meets_here)
  next
    case False
    with r assms have ok: "\<not> zero_offset_jump j" "0 \<le> sint (FalseBranchSize j)"
      "sint (FalseBranchSize j) + 1 \<le> int (length (j # rest))"
      by (auto split: if_splits)
    from False r consider
      "meets (take (nat (sint (FalseBranchSize j))) rest) ys"
      | f where "instructionSequenceImpl (take (nat (sint (FalseBranchSize j))) rest) = Inr f"
        "meets (drop (nat (sint (FalseBranchSize j))) rest) ys"
      by blast
    then show ?thesis
    proof cases
      case 1
      with assms ok show ?thesis by (rule meets_false)
    next
      case 2
      from assms ok 2 show ?thesis by (rule meets_true)
    qed
  qed
qed

lemma impl_error_iff_meets:
  "instructionSequenceImpl xs = Inl e \<longleftrightarrow> (\<exists>ys. meets xs ys \<and> local_error ys = Some e)"
proof (induction xs rule: length_induct)
  case (1 xs)
  show ?case
  proof (cases xs)
    case Nil
    then show ?thesis by simp
  next
    case (Cons i rest)
    show ?thesis
    proof (cases "is_jump i")
      case False
      have "length rest < length xs" by (simp add: Cons)
      with 1 have IH: "instructionSequenceImpl rest = Inl e \<longleftrightarrow>
          (\<exists>ys. meets rest ys \<and> local_error ys = Some e)" by blast
      from False show ?thesis
        by (auto simp: Cons impl_straight_error meets_straight IH)
    next
      case True
      let ?k = "nat (sint (FalseBranchSize i))"
      have "length (take ?k rest) < length xs" "length (drop ?k rest) < length xs"
        by (simp_all add: Cons)
      with 1 have IHf: "instructionSequenceImpl (take ?k rest) = Inl e \<longleftrightarrow>
          (\<exists>ys. meets (take ?k rest) ys \<and> local_error ys = Some e)"
        and IHt: "instructionSequenceImpl (drop ?k rest) = Inl e \<longleftrightarrow>
          (\<exists>ys. meets (drop ?k rest) ys \<and> local_error ys = Some e)" by blast+
      show ?thesis
      proof (cases "local_error (i # rest)")
        case (Some e')
        with True have "instructionSequenceImpl (i # rest) = Inl e'"
          by (auto simp: impl_jump handle_Cons zero_offset_jump_size split: if_splits)
        moreover from Some True have "(\<exists>ys. meets (i # rest) ys \<and> local_error ys = Some e) \<longleftrightarrow> e = e'"
          by (auto simp: meets_jump)
        ultimately show ?thesis by (auto simp: Cons)
      next
        case None
        with True have ok: "\<not> zero_offset_jump i" "0 \<le> sint (FalseBranchSize i)"
          "sint (FalseBranchSize i) + 1 \<le> int (length (i # rest))"
          by (auto split: if_splits)
        have "instructionSequenceImpl (i # rest) = Inl e \<longleftrightarrow>
            instructionSequenceImpl (take ?k rest) = Inl e \<or>
            (\<exists>f. instructionSequenceImpl (take ?k rest) = Inr f) \<and>
            instructionSequenceImpl (drop ?k rest) = Inl e"
          using True ok by (auto simp: impl_jump handle_Cons split: sum.splits)
        also have "\<dots> \<longleftrightarrow> (\<exists>ys. meets (i # rest) ys \<and> local_error ys = Some e)"
          using True None by (auto simp: meets_jump IHf IHt)
        finally show ?thesis by (simp add: Cons)
      qed
    qed
  qed
qed


lemma local_error_zero:
  "local_error ys = Some InvalidZeroOffset \<longleftrightarrow> (\<exists>j rest. ys = j # rest \<and> zero_offset_jump j)"
  by (cases ys) (auto simp: zero_offset_is_jump)

lemma local_error_bounds:
  "local_error ys = Some JumpOutOfBounds \<longleftrightarrow> jump_out_of_bounds ys"
  by (cases ys) (auto simp: zero_offset_jump_size)

lemma meets_subset: "meets xs ys \<Longrightarrow> ys \<noteq> [] \<and> set ys \<subseteq> set xs"
proof (induction rule: meets.induct)
  case (meets_here i rest)
  then show ?case by simp
next
  case (meets_next i rest ys)
  then show ?case by auto
next
  case (meets_false i rest ys)
  then show ?case by (auto dest: in_set_takeD)
next
  case (meets_true i rest f ys)
  then show ?case by (auto dest: in_set_dropD)
qed

lemma meets_behind_straight:
  "list_all (\<lambda>i. \<not> is_jump i) pre \<Longrightarrow> meets (pre @ j # rest) (j # rest)"
  by (induction pre) (auto intro: meets.intros)

section \<open>The errors of the sequence builder\<close>

text \<open>
  Claim C4. The sequence builder rejects with \<open>InvalidZeroOffset\<close> exactly when it meets
  an IMM-JMP whose false-branch size is 0 and whose opcode is not \<^verbatim>\<open>EXIT\<close>, or a Reg-JMP
  whose false-branch size is 0. Two consequences that do not speak of \<open>meets\<close>: the
  error is returned only if the list holds such a jump, and it is returned whenever such
  a jump stands behind straight instructions only.
\<close>

theorem InvalidZeroOffset_iff_meets:
  "(InstructionSequence instructions = Inl InvalidZeroOffset \<longleftrightarrow>
      (\<exists>j rest. meets instructions (j # rest) \<and> zero_offset_jump j)) \<and>
   (InstructionSequence instructions = Inl InvalidZeroOffset \<longrightarrow>
      list_ex zero_offset_jump instructions) \<and>
   (list_all (\<lambda>i. \<not> is_jump i) pre \<and> zero_offset_jump j \<longrightarrow>
      InstructionSequence (pre @ j # rest) = Inl InvalidZeroOffset)"
proof -
  have iff: "InstructionSequence xs = Inl InvalidZeroOffset \<longleftrightarrow>
      (\<exists>j rest. meets xs (j # rest) \<and> zero_offset_jump j)" for xs
    unfolding InstructionSequence_def impl_error_iff_meets local_error_zero by blast
  have "list_ex zero_offset_jump instructions"
    if "InstructionSequence instructions = Inl InvalidZeroOffset"
  proof -
    from that iff obtain j rest where "meets instructions (j # rest)" "zero_offset_jump j"
      by blast
    with meets_subset [of instructions "j # rest"] show ?thesis
      by (auto simp: list_ex_iff)
  qed
  moreover have "InstructionSequence (pre @ j # rest) = Inl InvalidZeroOffset"
    if "list_all (\<lambda>i. \<not> is_jump i) pre \<and> zero_offset_jump j"
    using that iff [of "pre @ j # rest"] meets_behind_straight [of pre j rest] by blast
  ultimately show ?thesis using iff [of instructions] by blast
qed

text \<open>
  The theorem at scenario S3: \<^verbatim>\<open>InstructionSequence(JmpGT(R0, 0, 0))\<close> fails with
  \<open>InvalidZeroOffset\<close>.
\<close>

theorem InvalidZeroOffset_iff_meets_witness:
  "InstructionSequence [JmpGT (Some RegR0) 0 0] = Inl InvalidZeroOffset \<and>
   zero_offset_jump (JmpGT (Some RegR0) 0 0) \<and>
   meets [JmpGT (Some RegR0) 0 0] [JmpGT (Some RegR0) 0 0]"
proof -
  have z: "zero_offset_jump (JmpGT (Some RegR0) 0 0)"
    by (simp add: JmpGT_def JmpJGT_def JmpExit_def)
  have m: "meets [JmpGT (Some RegR0) 0 0] [JmpGT (Some RegR0) 0 0]"
    by (rule meets_here)
  from InvalidZeroOffset_iff_meets [of "[JmpGT (Some RegR0) 0 0]" "[]" "JmpGT (Some RegR0) 0 0" "[]"] z m
  show ?thesis by auto
qed

text \<open>
  Claim C5, amended. On an empty list the branch splitter fails with
  \<open>EmptyJumpContext\<close>. On a non-empty list it fails with \<open>JumpOutOfBounds\<close> exactly when
  \<open>offset + 1 > len(list)\<close>, or the offset is not negative and the builder, run on the
  false branch \<open>list[1 .. offset+1)\<close> or, once that is built, on the true branch
  \<open>list[offset+1 ..]\<close>, meets a jump whose false-branch size plus one exceeds the number
  of instructions that remain from that jump onward. The sequence builder as a whole
  fails with \<open>JumpOutOfBounds\<close> exactly when it meets such a jump.
\<close>

theorem handleJmpInstruction_JumpOutOfBounds_iff:
  "handleJmpInstruction [] offset = Inl EmptyJumpContext \<and>
   (handleJmpInstruction (j # rest) offset = Inl JumpOutOfBounds \<longleftrightarrow>
      sint offset + 1 > int (length (j # rest)) \<or>
      (0 \<le> sint offset \<and>
       ((\<exists>ys. meets (take (nat (sint offset)) rest) ys \<and> jump_out_of_bounds ys) \<or>
        (\<exists>f. instructionSequenceImpl (take (nat (sint offset)) rest) = Inr f) \<and>
        (\<exists>ys. meets (drop (nat (sint offset)) rest) ys \<and> jump_out_of_bounds ys)))) \<and>
   (InstructionSequence instructions = Inl JumpOutOfBounds \<longleftrightarrow>
      (\<exists>ys. meets instructions ys \<and> jump_out_of_bounds ys))"
proof -
  have iff: "instructionSequenceImpl xs = Inl JumpOutOfBounds \<longleftrightarrow>
      (\<exists>ys. meets xs ys \<and> jump_out_of_bounds ys)" for xs
    unfolding impl_error_iff_meets local_error_bounds ..
  have "handleJmpInstruction (j # rest) offset = Inl JumpOutOfBounds \<longleftrightarrow>
      sint offset + 1 > int (length (j # rest)) \<or>
      (0 \<le> sint offset \<and>
       (instructionSequenceImpl (take (nat (sint offset)) rest) = Inl JumpOutOfBounds \<or>
        (\<exists>f. instructionSequenceImpl (take (nat (sint offset)) rest) = Inr f) \<and>
        instructionSequenceImpl (drop (nat (sint offset)) rest) = Inl JumpOutOfBounds))"
    by (auto simp: handle_Cons split: sum.splits)
  then show ?thesis
    by (simp add: iff InstructionSequence_def)
qed

text \<open>
  The theorem at scenario S4:
  \<^verbatim>\<open>InstructionSequence(JmpGT(R0, 0, 5), Mov64(R0, 1), Exit())\<close> fails with
  \<open>JumpOutOfBounds\<close>, and so does the splitter on this list.
\<close>

theorem handleJmpInstruction_JumpOutOfBounds_iff_witness:
  "InstructionSequence
     [JmpGT (Some RegR0) 0 5, the (Mov64 (Some RegR0) (SrcInt 1)), Exit] = Inl JumpOutOfBounds \<and>
   handleJmpInstruction
     [JmpGT (Some RegR0) 0 5, the (Mov64 (Some RegR0) (SrcInt 1)), Exit] 5 = Inl JumpOutOfBounds \<and>
   jump_out_of_bounds [JmpGT (Some RegR0) 0 5, the (Mov64 (Some RegR0) (SrcInt 1)), Exit]"
proof -
  let ?xs = "[JmpGT (Some RegR0) 0 5, the (Mov64 (Some RegR0) (SrcInt 1)), Exit]"
  have oob: "jump_out_of_bounds ?xs"
    by (simp add: JmpGT_def)
  have m: "meets ?xs ?xs"
    by (rule meets_here)
  have "sint (5 :: i16) + 1 > int (length ?xs)" by simp
  with handleJmpInstruction_JumpOutOfBounds_iff [of 5 "JmpGT (Some RegR0) 0 5" "[the (Mov64 (Some RegR0) (SrcInt 1)), Exit]" ?xs] oob m
  show ?thesis by blast
qed

text \<open>
  Claim C5 as stated fails for a nested jump: on
  \<^verbatim>\<open>[JmpGT(R0, 0, 1), JmpGT(R0, 0, 5), Exit()]\<close> with offset 1 the splitter's own check
  passes (\<open>1 + 1 \<le> 3\<close>), the false branch \<^verbatim>\<open>[JmpGT(R0, 0, 5)]\<close> fails with
  \<open>JumpOutOfBounds\<close>, and the splitter returns that error.
\<close>

theorem handleJmpInstruction_nested_JumpOutOfBounds:
  "handleJmpInstruction [JmpGT (Some RegR0) 0 1, JmpGT (Some RegR0) 0 5, Exit] 1 =
     Inl JumpOutOfBounds \<and>
   \<not> sint (1 :: i16) + 1 > int (length [JmpGT (Some RegR0) 0 1, JmpGT (Some RegR0) 0 5, Exit]) \<and>
   InstructionSequence [JmpGT (Some RegR0) 0 1, JmpGT (Some RegR0) 0 5, Exit] =
     Inl JumpOutOfBounds"
  by (simp add: InstructionSequence_def impl_Cons loop_jump handle_Cons JmpGT_def Exit_def
      JmpJGT_def JmpExit_def)


section \<open>The trees of the sequence builder\<close>

lemma is_straight_not_jump: "is_straight i \<Longrightarrow> \<not> is_jump i"
  by (cases i) simp_all

lemma walk_straight: "is_straight i \<Longrightarrow> walk i = [i]"
  by (cases i) simp_all

lemma walk_SetNextInstruction:
  "list_all is_straight (walk r) \<Longrightarrow> walk (SetNextInstruction r (Some i)) = walk r @ walk i"
  by (induction r "Some i" rule: SetNextInstruction.induct) (auto split: option.splits)

lemma loop_straight_list:
  "list_all is_straight (walk r) \<Longrightarrow> list_all is_straight xs \<Longrightarrow>
   \<exists>r'. instructionSequenceImpl_loop (Some r) xs = Inr (Some r') \<and> walk r' = walk r @ xs"
proof (induction xs arbitrary: r)
  case Nil
  then show ?case by simp
next
  case (Cons i xs)
  from Cons.prems have i: "is_straight i" and xs: "list_all is_straight xs" by simp_all
  have w: "walk (SetNextInstruction r (Some i)) = walk r @ [i]"
    using Cons.prems(1) i by (simp add: walk_SetNextInstruction walk_straight)
  with Cons.prems(1) i have "list_all is_straight (walk (SetNextInstruction r (Some i)))"
    by simp
  from Cons.IH [OF this xs] w i show ?case
    by (simp add: loop_straight is_straight_not_jump)
qed

text \<open>
  Claim C6, amended. For the empty list the builder returns an empty root and no error.
  For every list of straight instructions none of which has a successor yet (ALU nodes
  as the constructors return them), the builder succeeds, and walking the linear
  successor links from the root it returns yields exactly the list, in order.
\<close>

theorem straight_sequence_walk:
  "InstructionSequence [] = Inr None \<and>
   (list_all is_straight instructions \<longrightarrow>
      (\<exists>root. InstructionSequence instructions = Inr root \<and> walk_from root = instructions))"
proof (intro conjI impI)
  show "InstructionSequence [] = Inr None"
    by (simp add: InstructionSequence_def)
  assume all: "list_all is_straight instructions"
  show "\<exists>root. InstructionSequence instructions = Inr root \<and> walk_from root = instructions"
  proof (cases instructions)
    case Nil
    then show ?thesis by (simp add: InstructionSequence_def walk_from_def)
  next
    case (Cons i xs)
    with all have i: "is_straight i" and xs: "list_all is_straight xs" by simp_all
    from i have "list_all is_straight (walk i)" by (simp add: walk_straight)
    from loop_straight_list [OF this xs] obtain r' where
      "instructionSequenceImpl_loop (Some i) xs = Inr (Some r')" "walk r' = walk i @ xs"
      by blast
    with i show ?thesis
      by (simp add: Cons InstructionSequence_def impl_Cons loop_straight is_straight_not_jump
          walk_from_def walk_straight)
  qed
qed

text \<open>
  The theorem at \<^verbatim>\<open>InstructionSequence(Mov64(R0, 0), Mul64(R0, 3), Mov64(R1, R0))\<close>.
\<close>

theorem straight_sequence_walk_witness:
  "InstructionSequence [the (Mov64 (Some RegR0) (SrcInt 0)), Mul64 (Some RegR0) 3,
      the (Mov64 (Some RegR1) (SrcRegister (Some RegR0)))] =
     Inr (Some (AluImmInstruction AluMov InsClassAlu64 (Some RegR0) 0
       (Some (AluImmInstruction AluMul InsClassAlu64 (Some RegR0) 3
         (Some (AluRegInstruction AluMov InsClassAlu64 (Some RegR1) (Some RegR0) None)))))) \<and>
   walk_from (Some (AluImmInstruction AluMov InsClassAlu64 (Some RegR0) 0
       (Some (AluImmInstruction AluMul InsClassAlu64 (Some RegR0) 3
         (Some (AluRegInstruction AluMov InsClassAlu64 (Some RegR1) (Some RegR0) None)))))) =
     [the (Mov64 (Some RegR0) (SrcInt 0)), Mul64 (Some RegR0) 3,
      the (Mov64 (Some RegR1) (SrcRegister (Some RegR0)))]"
proof -
  let ?xs = "[the (Mov64 (Some RegR0) (SrcInt 0)), Mul64 (Some RegR0) 3,
      the (Mov64 (Some RegR1) (SrcRegister (Some RegR0)))]"
  have ret: "InstructionSequence ?xs =
     Inr (Some (AluImmInstruction AluMov InsClassAlu64 (Some RegR0) 0
       (Some (AluImmInstruction AluMul InsClassAlu64 (Some RegR0) 3
         (Some (AluRegInstruction AluMov InsClassAlu64 (Some RegR1) (Some RegR0) None))))))"
    by (simp add: InstructionSequence_def impl_Cons loop_straight Mov64_def Mul64_def
        NewAluImmInstruction_def NewAluRegInstruction_def)
  have "list_all is_straight ?xs"
    by (simp add: Mov64_def Mul64_def NewAluImmInstruction_def NewAluRegInstruction_def)
  with straight_sequence_walk [of ?xs] ret show ?thesis by auto
qed

text \<open>
  Claim C6 as stated fails for a straight instruction that already has a successor.
  \<^verbatim>\<open>InstructionSequence(a, b)\<close> with \<^verbatim>\<open>a = Mul64(R0, 2)\<close> and \<^verbatim>\<open>b = Mul64(R0, 3)\<close> links
  \<^verbatim>\<open>b\<close> behind \<^verbatim>\<open>a\<close>; the list that holds this \<^verbatim>\<open>a\<close> alone is a list of one straight
  instruction, the builder returns \<^verbatim>\<open>a\<close> as it is, and the walk from it yields two
  instructions.
\<close>

theorem linked_node_walk_longer:
  "InstructionSequence [Mul64 (Some RegR0) 2, Mul64 (Some RegR0) 3] =
     Inr (Some (AluImmInstruction AluMul InsClassAlu64 (Some RegR0) 2
            (Some (Mul64 (Some RegR0) 3)))) \<and>
   InstructionSequence
     [AluImmInstruction AluMul InsClassAlu64 (Some RegR0) 2 (Some (Mul64 (Some RegR0) 3))] =
     Inr (Some (AluImmInstruction AluMul InsClassAlu64 (Some RegR0) 2
            (Some (Mul64 (Some RegR0) 3)))) \<and>
   \<not> is_jump (AluImmInstruction AluMul InsClassAlu64 (Some RegR0) 2 (Some (Mul64 (Some RegR0) 3))) \<and>
   walk_from (Some (AluImmInstruction AluMul InsClassAlu64 (Some RegR0) 2
            (Some (Mul64 (Some RegR0) 3)))) = [Mul64 (Some RegR0) 2, Mul64 (Some RegR0) 3] \<and>
   length (walk_from (Some (AluImmInstruction AluMul InsClassAlu64 (Some RegR0) 2
            (Some (Mul64 (Some RegR0) 3))))) \<noteq>
     length [AluImmInstruction AluMul InsClassAlu64 (Some RegR0) 2 (Some (Mul64 (Some RegR0) 3))]"
  by (simp add: InstructionSequence_def impl_Cons loop_straight Mul64_def
      NewAluImmInstruction_def walk_from_def)

text \<open>
  Claim C3, amended. For every list \<open>[A, J, B1..Bk, C1..Cm]\<close> that the builder accepts,
  where \<open>J\<close> is a jump with false-branch size \<open>k\<close> and the first instruction \<open>A\<close> is not
  a jump: the builder returns \<open>A\<close> with the jump set as its next instruction, the
  false-subtree attached to the jump is the tree built from \<open>[B1..Bk]\<close> alone, and the
  true-subtree is the tree built from \<open>[C1..Cm]\<close> alone. When \<open>A\<close> has no successor
  yet, the walk from the root is \<open>A\<close>, then the jump.
\<close>

theorem nested_branches_built_alone:
  assumes A: "\<not> is_jump A" and J: "is_jump J"
    and k: "sint (FalseBranchSize J) = int (length Bs)"
    and acc: "InstructionSequence (A # J # Bs @ Cs) = Inr root"
  shows "\<exists>f t. InstructionSequence Bs = Inr f \<and> InstructionSequence Cs = Inr t \<and>
           FalseBranchNextInstr (with_branches J f t) = f \<and>
           TrueBranchNextInstr (with_branches J f t) = t \<and>
           root = Some (SetNextInstruction A (Some (with_branches J f t))) \<and>
           (is_straight A \<longrightarrow> walk_from root = [A, with_branches J f t])"
proof -
  from acc A have loop: "instructionSequenceImpl_loop (Some A) (J # Bs @ Cs) = Inr root"
    by (simp add: InstructionSequence_def impl_Cons loop_straight)
  with J have nz: "\<not> zero_offset_jump J"
    by (auto simp: loop_jump)
  from k have tk: "take (nat (sint (FalseBranchSize J))) (Bs @ Cs) = Bs"
    and dr: "drop (nat (sint (FalseBranchSize J))) (Bs @ Cs) = Cs" by simp_all
  from loop J nz k obtain f t where
    f: "instructionSequenceImpl Bs = Inr f" and t: "instructionSequenceImpl Cs = Inr t"
    and root: "root = Some (SetNextInstruction A (Some (with_branches J f t)))"
    by (auto simp: loop_jump handle_Cons tk dr split: sum.splits if_splits)
  have sel: "FalseBranchNextInstr (with_branches J f t) = f"
    "TrueBranchNextInstr (with_branches J f t) = t" "is_jump (with_branches J f t)"
    using J by (cases J; simp)+
  have "walk_from root = [A, with_branches J f t]" if "is_straight A"
    using that sel(3) root by (cases A; cases "with_branches J f t") (simp_all add: walk_from_def)
  with f t root sel show ?thesis
    by (auto simp: InstructionSequence_def)
qed

text \<open>
  The theorem at scenario S2:
  \<^verbatim>\<open>InstructionSequence(Mov64(R1, 5), JmpGT(R1, 3, 1), Mov64(R0, 7), Exit())\<close> builds a
  branch with the false-subtree \<^verbatim>\<open>[MOV R0, 7]\<close> and the true-subtree \<^verbatim>\<open>[EXIT]\<close>.
\<close>

theorem nested_branches_built_alone_witness:
  "InstructionSequence
     [the (Mov64 (Some RegR1) (SrcInt 5)), JmpGT (Some RegR1) 3 1,
      the (Mov64 (Some RegR0) (SrcInt 7)), Exit] =
     Inr (Some (AluImmInstruction AluMov InsClassAlu64 (Some RegR1) 5
       (Some (IMMJMPInstruction JmpJGT InsClassJmp UnusedField (Some RegR0) 1
          (Some (the (Mov64 (Some RegR0) (SrcInt 7)))) (Some Exit))))) \<and>
   InstructionSequence [the (Mov64 (Some RegR0) (SrcInt 7))] =
     Inr (Some (the (Mov64 (Some RegR0) (SrcInt 7)))) \<and>
   InstructionSequence [Exit] = Inr (Some Exit)"
proof -
  let ?A = "the (Mov64 (Some RegR1) (SrcInt 5))" and ?J = "JmpGT (Some RegR1) 3 1"
    and ?B = "the (Mov64 (Some RegR0) (SrcInt 7))"
  have acc: "InstructionSequence (?A # ?J # [?B] @ [Exit]) =
     Inr (Some (AluImmInstruction AluMov InsClassAlu64 (Some RegR1) 5
       (Some (IMMJMPInstruction JmpJGT InsClassJmp UnusedField (Some RegR0) 1
          (Some ?B) (Some Exit)))))"
    by (simp add: InstructionSequence_def impl_Cons loop_straight loop_jump handle_Cons
        Mov64_def NewAluImmInstruction_def JmpGT_def Exit_def JmpJGT_def JmpExit_def)
  have A: "\<not> is_jump ?A" by (simp add: Mov64_def NewAluImmInstruction_def)
  have J: "is_jump ?J" by (simp add: JmpGT_def)
  have k: "sint (FalseBranchSize ?J) = int (length [?B])" by (simp add: JmpGT_def)
  from nested_branches_built_alone [OF A J k acc] acc show ?thesis
    by (auto simp: JmpGT_def Mov64_def NewAluImmInstruction_def)
qed

text \<open>
  Claim C3 as stated fails when \<open>A\<close> is a conditional jump. The list
  \<^verbatim>\<open>[JmpGT(R0, 0, 2), JmpGT(R0, 0, 1), Mul64(R0, 2), Mul64(R0, 3)]\<close> has the form
  \<open>[A, JMP(1), B1, C1]\<close> and is accepted; the first jump takes \<^verbatim>\<open>[JMP(1), B1]\<close> as its
  false branch, so the true-subtree of \<^verbatim>\<open>JMP(1)\<close> is empty, while the tree built from
  \<open>[C1]\<close> alone is \<open>C1\<close>.
\<close>

theorem nested_branches_behind_jump:
  "InstructionSequence
     [JmpGT (Some RegR0) 0 2, JmpGT (Some RegR0) 0 1, Mul64 (Some RegR0) 2, Mul64 (Some RegR0) 3] =
     Inr (Some (IMMJMPInstruction JmpJGT InsClassJmp UnusedField (Some RegR0) 2
       (Some (IMMJMPInstruction JmpJGT InsClassJmp UnusedField (Some RegR0) 1
          (Some (Mul64 (Some RegR0) 2)) None))
       (Some (Mul64 (Some RegR0) 3)))) \<and>
   InstructionSequence [Mul64 (Some RegR0) 2] = Inr (Some (Mul64 (Some RegR0) 2)) \<and>
   InstructionSequence [Mul64 (Some RegR0) 3] = Inr (Some (Mul64 (Some RegR0) 3)) \<and>
   Some (Mul64 (Some RegR0) 3) \<noteq> (None :: instruction option)"
  by (simp add: InstructionSequence_def impl_Cons loop_straight loop_jump handle_Cons
      Mul64_def NewAluImmInstruction_def JmpGT_def JmpJGT_def JmpExit_def)

end
